theory Spec2Isabelle
  imports Complex_Main
begin

section \<open>Python values used by the finance tracker\<close>

text \<open>
  The tracker is written in Python.  Money is an unbounded \<open>int\<close> (paisa), records are
  named tuples of strings and ints, and every percentage is a Python \<open>float\<close>, that is an
  IEEE-754 binary64 number.  Exceptions are values of \<open>py_error\<close>; a function that can
  raise returns \<open>py_error + 'a\<close>.
\<close>

datatype py_error = ValueError | ZeroDivisionError

subsection \<open>Floats: round to nearest, ties to even, 53 significant bits\<close>

text \<open>
  A float is modelled by the real number it denotes.  Each arithmetic operation computes
  the exact result and rounds it with \<open>to_double\<close>: the argument is scaled by a power of
  two until it lies in \<open>[2^52, 2^53)\<close>, rounded to an integer with ties going to the even
  one, and scaled back.  The exponent range is not bounded, so overflow to infinity and
  gradual underflow (magnitudes outside \<open>2^-1022 .. 2^1024\<close>) are outside the model.
  \<open>round_half_even\<close> is also what Python's builtin \<open>round(x)\<close> computes on a float.
  Python compares an int with a float by their exact values, which is the order of the
  reals here.
\<close>

definition round_half_even :: "real \<Rightarrow> int" where
  "round_half_even x =
     (let f = \<lfloor>x\<rfloor>; r = x - of_int f
      in if r < 1/2 then f else if 1/2 < r then f + 1 else if even f then f else f + 1)"

definition scale_measure :: "real \<Rightarrow> nat" where
  "scale_measure x = (if x < 2^52 then nat \<lceil>2^52 / x\<rceil> else nat \<lfloor>x / 2^52\<rfloor>)"

function to_double_pos :: "real \<Rightarrow> real" where
  "to_double_pos x =
     (if x \<le> 0 then 0
      else if x < 2^52 then to_double_pos (2 * x) / 2
      else if 2^53 \<le> x then 2 * to_double_pos (x / 2)
      else of_int (round_half_even x))"
  by pat_completeness auto
termination
proof (relation "measure scale_measure")
  show "wf (measure scale_measure)" by simp
next
  fix x :: real
  assume "\<not> x \<le> 0" and small: "x < 2^52"
  then have pos: "0 < x" by simp
  define y where "y = 2^52 / x"
  have y1: "1 < y" using pos small by (simp add: y_def)
  have big: "2 \<le> \<lceil>y\<rceil>" using y1 by linarith
  have m2: "scale_measure x = nat \<lceil>y\<rceil>"
    unfolding scale_measure_def y_def using small by (simp only: if_True)
  have "scale_measure (2 * x) < scale_measure x"
  proof (cases "2 * x < 2^52")
    case True
    then have y2: "2 < y" using pos by (simp add: y_def field_simps)
    have eq: "2^52 / (2 * x) = y / 2" by (simp add: y_def)
    have "y / 2 \<le> y - 1" using y2 by simp
    then have "\<lceil>y / 2\<rceil> \<le> \<lceil>y - 1\<rceil>" by (rule ceiling_mono)
    then have "\<lceil>y / 2\<rceil> < \<lceil>y\<rceil>" by simp
    then have lt: "nat \<lceil>y / 2\<rceil> < nat \<lceil>y\<rceil>" using big by linarith
    have m1: "scale_measure (2 * x) = nat \<lceil>y / 2\<rceil>"
      unfolding scale_measure_def using True by (simp only: if_True eq)
    show ?thesis using lt by (simp only: m1 m2)
  next
    case False
    have "2 * x / 2^52 < 2" using small by simp
    then have "\<lfloor>2 * x / 2^52\<rfloor> < 2" by linarith
    then have lt: "nat \<lfloor>2 * x / 2^52\<rfloor> < nat \<lceil>y\<rceil>" using big by linarith
    have m1: "scale_measure (2 * x) = nat \<lfloor>2 * x / 2^52\<rfloor>"
      unfolding scale_measure_def using False by (simp only: if_False)
    show ?thesis using lt by (simp only: m1 m2)
  qed
  then show "(2 * x, x) \<in> measure scale_measure" by simp
next
  fix x :: real
  assume "\<not> x \<le> 0" and "\<not> x < 2^52" and large: "2^53 \<le> x"
  define y where "y = x / 2^52"
  have y2: "2 \<le> y" using large by (simp add: y_def)
  have eq: "x / 2 / 2^52 = y / 2" by (simp add: y_def)
  have "y / 2 \<le> y - 1" using y2 by simp
  then have "\<lfloor>y / 2\<rfloor> \<le> \<lfloor>y - 1\<rfloor>" by (rule floor_mono)
  then have "\<lfloor>y / 2\<rfloor> < \<lfloor>y\<rfloor>" by simp
  moreover have "0 < \<lfloor>y\<rfloor>" using y2 by linarith
  ultimately have lt: "nat \<lfloor>y / 2\<rfloor> < nat \<lfloor>y\<rfloor>" by linarith
  have n1: "\<not> x / 2 < 2^52" and n2: "\<not> x < 2^52" using large by simp_all
  have m1: "scale_measure (x / 2) = nat \<lfloor>y / 2\<rfloor>"
    unfolding scale_measure_def using n1 by (simp only: if_False eq)
  have m2: "scale_measure x = nat \<lfloor>y\<rfloor>"
    unfolding scale_measure_def y_def using n2 by (simp only: if_False)
  have "scale_measure (x / 2) < scale_measure x" using lt by (simp only: m1 m2)
  then show "(x / 2, x) \<in> measure scale_measure" by simp
qed

declare to_double_pos.simps [simp del]

definition to_double :: "real \<Rightarrow> real" where
  "to_double x = (if x < 0 then - to_double_pos (- x) else to_double_pos x)"

text \<open>
  \<open>float(n)\<close> for an int, the product of two floats, and \<open>a / b\<close> on two ints.  Python's
  true division of ints rounds the exact quotient once and raises \<open>ZeroDivisionError\<close>
  on a zero divisor.  A decimal literal such as \<open>0.7\<close> denotes \<open>to_double (7/10)\<close>.
\<close>

definition float_of_int :: "int \<Rightarrow> real" where
  "float_of_int n = to_double (of_int n)"

definition float_mul :: "real \<Rightarrow> real \<Rightarrow> real" where
  "float_mul x y = to_double (x * y)"

definition py_truediv :: "int \<Rightarrow> int \<Rightarrow> py_error + real" where
  "py_truediv a b =
     (if b = 0 then Inl ZeroDivisionError else Inr (to_double (of_int a / of_int b)))"

section \<open>Data model (transactions.py, budgets.py)\<close>

record transaction =
  date :: string
  type :: string
  category :: string
  description :: string
  amount :: int

record budget =
  budget_category :: string
  budget_amount :: int

subsection \<open>Money handling\<close>

text \<open>\<^verbatim>\<open>def to_paisa(amount: float) -> int: return int(round(amount * 100))\<close>\<close>

definition to_paisa :: "real \<Rightarrow> int" where
  "to_paisa amount_float = round_half_even (float_mul amount_float (float_of_int 100))"

text \<open>
  The rounding rule of the specification, for comparison: nearest integer, a fraction of
  exactly one half going away from zero.
\<close>

definition round_half_away_from_zero :: "real \<Rightarrow> int" where
  "round_half_away_from_zero x = (if 0 \<le> x then \<lfloor>x + 1/2\<rfloor> else - \<lfloor>- x + 1/2\<rfloor>)"

section \<open>Dates\<close>

record py_datetime =
  year :: int
  month :: int
  day :: int

definition is_digit :: "char \<Rightarrow> bool" where
  "is_digit c = (c \<in> set ''0123456789'')"

definition is_nonzero_digit :: "char \<Rightarrow> bool" where
  "is_nonzero_digit c = (c \<in> set ''123456789'')"

text \<open>The value of a decimal digit is its position in \<open>0123456789\<close>.\<close>

definition digit_value :: "char \<Rightarrow> int" where
  "digit_value c = int (length (takeWhile (\<lambda>d. d \<noteq> c) ''0123456789''))"

text \<open>
  \<open>datetime.strptime(s, "%Y-%m-%d")\<close>.  CPython matches the string against
  \<^verbatim>\<open>(\d\d\d\d)-(1[0-2]|0[1-9]|[1-9])-(3[01]|[12]\d|0[1-9]|[1-9]| [1-9])\<close>, raises
  \<open>ValueError\<close> when it does not match or when text remains after the match, and
  raises \<open>ValueError\<close> again when year, month and day are not a calendar date (years run
  from 1 to 9999).  Strings are byte strings here, so only ASCII digits count as \<open>\d\<close>.
\<close>

fun parse_month :: "string \<Rightarrow> int option" where
  "parse_month [a, b] =
     (if a = CHR ''1'' \<and> b \<in> set ''012'' then Some (10 + digit_value b)
      else if a = CHR ''0'' \<and> is_nonzero_digit b then Some (digit_value b)
      else None)"
| "parse_month [a] = (if is_nonzero_digit a then Some (digit_value a) else None)"
| "parse_month _ = None"

fun parse_day :: "string \<Rightarrow> int option" where
  "parse_day [a, b] =
     (if a = CHR ''3'' \<and> b \<in> set ''01'' then Some (30 + digit_value b)
      else if a \<in> set ''12'' \<and> is_digit b then Some (10 * digit_value a + digit_value b)
      else if a = CHR ''0'' \<and> is_nonzero_digit b then Some (digit_value b)
      else if a = CHR '' '' \<and> is_nonzero_digit b then Some (digit_value b)
      else None)"
| "parse_day [a] = (if is_nonzero_digit a then Some (digit_value a) else None)"
| "parse_day _ = None"

fun split_dash :: "string \<Rightarrow> (string \<times> string) option" where
  "split_dash [] = None"
| "split_dash (c # cs) =
     (if c = CHR ''-'' then Some ([], cs)
      else case split_dash cs of None \<Rightarrow> None | Some (a, b) \<Rightarrow> Some (c # a, b))"

definition is_leap :: "int \<Rightarrow> bool" where
  "is_leap y = (y mod 4 = 0 \<and> (y mod 100 \<noteq> 0 \<or> y mod 400 = 0))"

definition days_in_month :: "int \<Rightarrow> int \<Rightarrow> int" where
  "days_in_month y m =
     (if m = 2 then (if is_leap y then 29 else 28)
      else if m = 4 \<or> m = 6 \<or> m = 9 \<or> m = 11 then 30 else 31)"

definition strptime_Ymd :: "string \<Rightarrow> py_error + py_datetime" where
  "strptime_Ymd s =
     (case s of
        y1 # y2 # y3 # y4 # sep # rest \<Rightarrow>
          if is_digit y1 \<and> is_digit y2 \<and> is_digit y3 \<and> is_digit y4 \<and> sep = CHR ''-'' then
            (case split_dash rest of
               None \<Rightarrow> Inl ValueError
             | Some (m_tok, d_tok) \<Rightarrow>
                 (case parse_month m_tok of
                    None \<Rightarrow> Inl ValueError
                  | Some m \<Rightarrow>
                      (case parse_day d_tok of
                         None \<Rightarrow> Inl ValueError
                       | Some d \<Rightarrow>
                           let y = 1000 * digit_value y1 + 100 * digit_value y2
                                   + 10 * digit_value y3 + digit_value y4
                           in if 1 \<le> y \<and> d \<le> days_in_month y m
                              then Inr \<lparr>year = y, month = m, day = d\<rparr>
                              else Inl ValueError)))
          else Inl ValueError
      | _ \<Rightarrow> Inl ValueError)"

text \<open>\<open>today.strftime("%Y-%m")\<close>, for the four-digit years of \<open>datetime.now()\<close>.\<close>

definition digit_char :: "int \<Rightarrow> char" where
  "digit_char d = ''0123456789'' ! nat (d mod 10)"

definition strftime_Ym :: "py_datetime \<Rightarrow> string" where
  "strftime_Ym t =
     [digit_char (year t div 1000), digit_char (year t div 100),
      digit_char (year t div 10), digit_char (year t), CHR ''-'',
      digit_char (month t div 10), digit_char (month t)]"

fun startswith :: "string \<Rightarrow> string \<Rightarrow> bool" where
  "startswith s [] = True"
| "startswith [] (p # ps) = False"
| "startswith (c # s) (p # ps) = (c = p \<and> startswith s ps)"

section \<open>Period filter and aggregation (analytics.py)\<close>

text \<open>
  \<^verbatim>\<open>
  def filter_transactions_by_month(transactions, year, month):
      return [t for t in transactions
              if datetime.strptime(t.date, "%Y-%m-%d").year == year and
                 datetime.strptime(t.date, "%Y-%m-%d").month == month]
  \<close>
  The condition parses the date, and parses it a second time only when the year matched.
\<close>

definition month_matches :: "transaction \<Rightarrow> int \<Rightarrow> int \<Rightarrow> py_error + bool" where
  "month_matches t y m =
     (case strptime_Ymd (date t) of
        Inl e \<Rightarrow> Inl e
      | Inr d1 \<Rightarrow>
          if year d1 = y then
            (case strptime_Ymd (date t) of Inl e \<Rightarrow> Inl e | Inr d2 \<Rightarrow> Inr (month d2 = m))
          else Inr False)"

fun filter_transactions_by_month ::
  "transaction list \<Rightarrow> int \<Rightarrow> int \<Rightarrow> py_error + transaction list" where
  "filter_transactions_by_month [] y m = Inr []"
| "filter_transactions_by_month (t # ts) y m =
     (case month_matches t y m of
        Inl e \<Rightarrow> Inl e
      | Inr keep \<Rightarrow>
          (case filter_transactions_by_month ts y m of
             Inl e \<Rightarrow> Inl e
           | Inr rest \<Rightarrow> Inr (if keep then t # rest else rest)))"

text \<open>
  What the specification says of the filter, for comparison: a date string is valid when
  it parses, and it lies in a month when its parsed year and month are the given ones.
\<close>

definition valid_date :: "string \<Rightarrow> bool" where
  "valid_date s = (case strptime_Ymd s of Inl e \<Rightarrow> False | Inr d \<Rightarrow> True)"

definition date_in_month :: "string \<Rightarrow> int \<Rightarrow> int \<Rightarrow> bool" where
  "date_in_month s y m =
     (case strptime_Ymd s of Inl e \<Rightarrow> False | Inr d \<Rightarrow> year d = y \<and> month d = m)"

subsection \<open>Dictionaries keyed by category, in insertion order\<close>

type_synonym py_dict = "(string \<times> int) list"

definition dict_contains :: "py_dict \<Rightarrow> string \<Rightarrow> bool" where
  "dict_contains d k = (k \<in> set (map fst d))"

definition dict_get :: "py_dict \<Rightarrow> string \<Rightarrow> int \<Rightarrow> int" where
  "dict_get d k dflt = (case map_of d k of None \<Rightarrow> dflt | Some v \<Rightarrow> v)"

fun dict_set :: "py_dict \<Rightarrow> string \<Rightarrow> int \<Rightarrow> py_dict" where
  "dict_set [] k v = [(k, v)]"
| "dict_set ((k', w) # d) k v = (if k' = k then (k', v) # d else (k', w) # dict_set d k v)"

text \<open>\<open>d[k] += v\<close> on a \<open>defaultdict(int)\<close>, or on a plain dict that holds \<open>k\<close>.\<close>

definition dict_add :: "py_dict \<Rightarrow> string \<Rightarrow> int \<Rightarrow> py_dict" where
  "dict_add d k v = dict_set d k (dict_get d k 0 + v)"

definition dict_values_sum :: "py_dict \<Rightarrow> int" where
  "dict_values_sum d = sum_list (map snd d)"

fun spending_by_category_loop :: "py_dict \<Rightarrow> transaction list \<Rightarrow> py_dict" where
  "spending_by_category_loop d [] = d"
| "spending_by_category_loop d (t # ts) =
     spending_by_category_loop
       (if type t = ''expense'' then dict_add d (category t) (amount t) else d) ts"

definition get_monthly_spending_by_category :: "transaction list \<Rightarrow> py_dict" where
  "get_monthly_spending_by_category transactions = spending_by_category_loop [] transactions"

fun income_by_source_loop :: "py_dict \<Rightarrow> transaction list \<Rightarrow> py_dict" where
  "income_by_source_loop d [] = d"
| "income_by_source_loop d (t # ts) =
     income_by_source_loop
       (if type t = ''income'' then dict_add d (category t) (amount t) else d) ts"

definition get_monthly_income_by_source :: "transaction list \<Rightarrow> py_dict" where
  "get_monthly_income_by_source transactions = income_by_source_loop [] transactions"

definition get_total_spending :: "transaction list \<Rightarrow> int" where
  "get_total_spending transactions =
     sum_list (map amount (filter (\<lambda>t. type t = ''expense'') transactions))"

definition get_total_income :: "transaction list \<Rightarrow> int" where
  "get_total_income transactions =
     sum_list (map amount (filter (\<lambda>t. type t = ''income'') transactions))"

section \<open>Budget evaluation (budgets.py, analytics.py, assistant.py)\<close>

text \<open>
  Every budget screen starts from the same table: one entry per budgeted category, set to
  0, to which the current month's expenses of that category are added.  The current
  month is recognised by \<open>t.date.startswith(current_month_str)\<close>.
  \<^verbatim>\<open>
  category_spending = {budget.category: 0 for budget in budgets}
  for t in transactions:
      if t.date.startswith(current_month_str) and t.type == "expense":
          if t.category in category_spending:
              category_spending[t.category] += t.amount
  \<close>
\<close>

fun init_category_spending :: "py_dict \<Rightarrow> budget list \<Rightarrow> py_dict" where
  "init_category_spending d [] = d"
| "init_category_spending d (b # bs) =
     init_category_spending (dict_set d (budget_category b) 0) bs"

fun category_spending_loop :: "py_dict \<Rightarrow> string \<Rightarrow> transaction list \<Rightarrow> py_dict" where
  "category_spending_loop d current_month_str [] = d"
| "category_spending_loop d current_month_str (t # ts) =
     category_spending_loop
       (if startswith (date t) current_month_str \<and> type t = ''expense''
        then (if dict_contains d (category t) then dict_add d (category t) (amount t) else d)
        else d)
       current_month_str ts"

definition category_spending :: "budget list \<Rightarrow> transaction list \<Rightarrow> string \<Rightarrow> py_dict" where
  "category_spending budgets transactions current_month_str =
     category_spending_loop (init_category_spending [] budgets) current_month_str transactions"

datatype utilization_status = OK | WARNING | OVER

subsection \<open>\<open>view_budgets\<close>\<close>

text \<open>
  \<^verbatim>\<open>
  utilization_percent = (spent / budget.amount * 100) if budget.amount > 0 else 0
  if utilization_percent >= 100:   status_text = "OVER"
  elif utilization_percent >= 70:  status_text = "WARNING"
  else:                            status_text = "OK"
  \<close>
\<close>

definition utilization_percent :: "int \<Rightarrow> int \<Rightarrow> py_error + real" where
  "utilization_percent spent budgeted =
     (if budgeted > 0 then
        (case py_truediv spent budgeted of
           Inl e \<Rightarrow> Inl e
         | Inr q \<Rightarrow> Inr (float_mul q (float_of_int 100)))
      else Inr 0)"

definition status_text :: "real \<Rightarrow> utilization_status" where
  "status_text u = (if u \<ge> 100 then OVER else if u \<ge> 70 then WARNING else OK)"

record budget_row =
  row_category :: string
  row_budget :: int
  row_spent :: int
  row_remaining :: int
  row_utilization :: real
  row_status :: utilization_status

definition view_budgets_row :: "py_dict \<Rightarrow> budget \<Rightarrow> py_error + budget_row" where
  "view_budgets_row cs b =
     (let spent = dict_get cs (budget_category b) 0;
          remaining = budget_amount b - spent
      in case utilization_percent spent (budget_amount b) of
           Inl e \<Rightarrow> Inl e
         | Inr u \<Rightarrow> Inr \<lparr>row_category = budget_category b, row_budget = budget_amount b,
                          row_spent = spent, row_remaining = remaining,
                          row_utilization = u, row_status = status_text u\<rparr>)"

fun view_budgets_rows :: "py_dict \<Rightarrow> budget list \<Rightarrow> py_error + budget_row list" where
  "view_budgets_rows cs [] = Inr []"
| "view_budgets_rows cs (b # bs) =
     (case view_budgets_row cs b of
        Inl e \<Rightarrow> Inl e
      | Inr r \<Rightarrow> (case view_budgets_rows cs bs of Inl e \<Rightarrow> Inl e | Inr rs \<Rightarrow> Inr (r # rs)))"

text \<open>The table of \<open>view_budgets\<close>; \<open>None\<close> is the message that no budgets are set.\<close>

definition view_budgets ::
  "budget list \<Rightarrow> transaction list \<Rightarrow> py_datetime \<Rightarrow> py_error + budget_row list option" where
  "view_budgets budgets transactions now =
     (if budgets = [] then Inr None
      else case view_budgets_rows (category_spending budgets transactions (strftime_Ym now)) budgets of
             Inl e \<Rightarrow> Inl e
           | Inr rows \<Rightarrow> Inr (Some rows))"

subsection \<open>Budget performance in \<open>generate_monthly_report\<close>\<close>

text \<open>
  \<^verbatim>\<open>
  if spent > budget.amount:          status_text = "OVER"; over_budget_count += 1
  elif spent > budget.amount * 0.7:  status_text = "WARNING"
  else:                              status_text = "OK"
  \<close>
  The first comparison is between ints; the second compares an int with the float
  product \<open>budget.amount * 0.7\<close>, which Python does exactly.
\<close>

definition report_status :: "int \<Rightarrow> int \<Rightarrow> utilization_status" where
  "report_status spent budgeted =
     (if spent > budgeted then OVER
      else if of_int spent > float_mul (float_of_int budgeted) (to_double (7/10)) then WARNING
      else OK)"

definition report_budget_performance ::
  "budget list \<Rightarrow> transaction list \<Rightarrow> py_datetime
     \<Rightarrow> (string \<times> int \<times> int \<times> utilization_status) list" where
  "report_budget_performance all_budgets all_transactions now =
     (let cs = category_spending all_budgets all_transactions (strftime_Ym now)
      in map (\<lambda>b. let spent = dict_get cs (budget_category b) 0
                   in (budget_category b, budget_amount b, spent,
                       report_status spent (budget_amount b)))
             all_budgets)"

subsection \<open>Alerts (\<open>get_spending_alerts\<close>)\<close>

datatype alert =
    ApproachingLimit string real
  | ExceededBudget string real
  | LargeTransaction transaction

text \<open>
  \<^verbatim>\<open>
  utilization = (category_spending[budget.category] / budget.amount * 100) if budget.amount > 0 else 0
  if 80 <= utilization < 100:  alerts.append("Approaching budget limit ...")
  elif utilization >= 100:     alerts.append("Exceeded budget ...")
  \<close>
  The key is always present, the table having been built from the budgets.
\<close>

definition budget_alert :: "py_dict \<Rightarrow> budget \<Rightarrow> py_error + alert option" where
  "budget_alert cs b =
     (case utilization_percent (dict_get cs (budget_category b) 0) (budget_amount b) of
        Inl e \<Rightarrow> Inl e
      | Inr utilization \<Rightarrow>
          Inr (if 80 \<le> utilization \<and> utilization < 100
                 then Some (ApproachingLimit (budget_category b) utilization)
               else if utilization \<ge> 100
                 then Some (ExceededBudget (budget_category b) utilization)
               else None))"

fun budget_alerts :: "py_dict \<Rightarrow> budget list \<Rightarrow> py_error + alert list" where
  "budget_alerts cs [] = Inr []"
| "budget_alerts cs (b # bs) =
     (case budget_alert cs b of
        Inl e \<Rightarrow> Inl e
      | Inr a \<Rightarrow>
          (case budget_alerts cs bs of
             Inl e \<Rightarrow> Inl e
           | Inr rest \<Rightarrow> Inr (case a of None \<Rightarrow> rest | Some x \<Rightarrow> x # rest)))"

text \<open>
  \<^verbatim>\<open>
  if monthly_income > 0:
      large_transaction_threshold = monthly_income * 0.20
      for t in current_month_transactions:
          if t.type == "expense" and t.amount > large_transaction_threshold:
              alerts.append("Large transaction detected ...")
  \<close>
\<close>

definition is_large_transaction :: "int \<Rightarrow> transaction \<Rightarrow> bool" where
  "is_large_transaction monthly_income t =
     (monthly_income > 0 \<and> type t = ''expense'' \<and>
      of_int (amount t) > float_mul (float_of_int monthly_income) (to_double (20/100)))"

definition large_transaction_alerts :: "transaction list \<Rightarrow> alert list" where
  "large_transaction_alerts current_month_transactions =
     (let monthly_income = get_total_income current_month_transactions
      in map LargeTransaction
           (filter (is_large_transaction monthly_income) current_month_transactions))"

definition get_spending_alerts ::
  "transaction list \<Rightarrow> budget list \<Rightarrow> py_datetime \<Rightarrow> py_error + alert list" where
  "get_spending_alerts all_transactions all_budgets now =
     (case (if all_budgets \<noteq> []
            then budget_alerts
                   (category_spending all_budgets all_transactions (strftime_Ym now)) all_budgets
            else Inr []) of
        Inl e \<Rightarrow> Inl e
      | Inr alerts \<Rightarrow>
          (case filter_transactions_by_month all_transactions (year now) (month now) of
             Inl e \<Rightarrow> Inl e
           | Inr current_month_transactions \<Rightarrow>
               Inr (alerts @ large_transaction_alerts current_month_transactions)))"

section \<open>Trends (analytics.py)\<close>

text \<open>
  The comparison with last month in \<open>spending_analysis\<close>:
  \<^verbatim>\<open>
  if total_last_month_spending > 0:
      change_percent = ((total_current_month_spending - total_last_month_spending)
                        / total_last_month_spending) * 100
      if change_percent > 0:    "Spending increased by {change_percent:.2f}%"
      elif change_percent < 0:  "Spending decreased by {abs(change_percent):.2f}%"
      else:                     "Spending remained the same"
  else:
      if total_current_month_spending > 0:  "No spending last month, but spending in current month."
      else:                                 "No spending in either month."
  \<close>
\<close>

text \<open>
  The specification's \<open>percent_change\<close>, for comparison:
  \<open>(current - previous) / previous * 100\<close> in exact arithmetic, undefined for a previous
  total of 0.
\<close>

definition percent_change :: "int \<Rightarrow> int \<Rightarrow> real option" where
  "percent_change current previous =
     (if previous = 0 then None
      else Some (of_int (current - previous) / of_int previous * 100))"

datatype comparison =
    Increased real
  | Decreased real
  | RemainedSame
  | NewActivity
  | NoActivity

definition compare_with_last_month :: "int \<Rightarrow> int \<Rightarrow> py_error + comparison" where
  "compare_with_last_month total_current total_last =
     (if total_last > 0 then
        (case py_truediv (total_current - total_last) total_last of
           Inl e \<Rightarrow> Inl e
         | Inr q \<Rightarrow>
             let change_percent = float_mul q (float_of_int 100)
             in Inr (if change_percent > 0 then Increased change_percent
                     else if change_percent < 0 then Decreased \<bar>change_percent\<bar>
                     else RemainedSame))
      else if total_current > 0 then Inr NewActivity
      else Inr NoActivity)"

text \<open>The percentage a comparison prints, with its sign.\<close>

fun reported_change :: "comparison \<Rightarrow> real option" where
  "reported_change (Increased c) = Some c"
| "reported_change (Decreased c) = Some (- c)"
| "reported_change RemainedSame = Some 0"
| "reported_change NewActivity = None"
| "reported_change NoActivity = None"

text \<open>\<open>today.replace(day=1) - timedelta(days=1)\<close>: a day of the previous month.\<close>

definition last_month :: "py_datetime \<Rightarrow> int \<times> int" where
  "last_month now = (if month now = 1 then (year now - 1, 12) else (year now, month now - 1))"

definition spending_comparison ::
  "transaction list \<Rightarrow> py_datetime \<Rightarrow> py_error + comparison option" where
  "spending_comparison all_transactions now =
     (if all_transactions = [] then Inr None
      else case filter_transactions_by_month all_transactions (year now) (month now) of
        Inl e \<Rightarrow> Inl e
      | Inr current_month_transactions \<Rightarrow>
          (case filter_transactions_by_month all_transactions
                  (fst (last_month now)) (snd (last_month now)) of
             Inl e \<Rightarrow> Inl e
           | Inr last_month_transactions \<Rightarrow>
               (case compare_with_last_month
                       (dict_values_sum (get_monthly_spending_by_category current_month_transactions))
                       (get_total_spending last_month_transactions) of
                  Inl e \<Rightarrow> Inl e
                | Inr c \<Rightarrow> Inr (Some c))))"

subsection \<open>Income stability\<close>

text \<open>
  \<^verbatim>\<open>
  if len(income_over_months) == 3:
      if all(abs(income_over_months[i] - income_over_months[0])
             <= income_over_months[0] * 0.1 for i in range(1,3)):   stable
      else:                                                         fluctuating
  elif income_over_months:  not enough data
  else:                     no income data
  \<close>
\<close>

datatype stability = STABLE | FLUCTUATING | NOT_ENOUGH_DATA | NO_DATA

definition within_tolerance :: "int \<Rightarrow> int \<Rightarrow> bool" where
  "within_tolerance t0 ti =
     (of_int \<bar>ti - t0\<bar> \<le> float_mul (float_of_int t0) (to_double (1/10)))"

fun income_stability :: "int list \<Rightarrow> stability" where
  "income_stability [t0, t1, t2] =
     (if within_tolerance t0 t1 \<and> within_tolerance t0 t2 then STABLE else FLUCTUATING)"
| "income_stability [] = NO_DATA"
| "income_stability _ = NOT_ENOUGH_DATA"

section \<open>Financial health score (analytics.py)\<close>

datatype band = Excellent | Good | Fair | NeedsAttention

record health_report =
  score :: int
  savings_score :: "int option"
  budget_adherence_score :: int
  income_vs_expense_score :: int
  debt_score :: int
  score_band :: band

text \<open>Savings rate, 30 points; \<open>None\<close> is the breakdown entry "N/A (No income)".\<close>

definition savings_rate_score :: "int \<Rightarrow> int \<Rightarrow> py_error + int option" where
  "savings_rate_score total_income_cm total_spending_cm =
     (if total_income_cm > 0 then
        (case py_truediv (total_income_cm - total_spending_cm) total_income_cm of
           Inl e \<Rightarrow> Inl e
         | Inr q \<Rightarrow>
             let savings_rate = float_mul q (float_of_int 100)
             in Inr (Some (if savings_rate \<ge> 20 then 30
                           else if savings_rate \<ge> 10 then 20
                           else if savings_rate > 0 then 10
                           else 0)))
      else Inr None)"

text \<open>Budget adherence, 25 points.\<close>

definition over_budget_count :: "py_dict \<Rightarrow> budget list \<Rightarrow> nat" where
  "over_budget_count cs all_budgets =
     length (filter (\<lambda>b. dict_get cs (budget_category b) 0 > budget_amount b) all_budgets)"

definition adherence_score ::
  "budget list \<Rightarrow> transaction list \<Rightarrow> string \<Rightarrow> py_error + int" where
  "adherence_score all_budgets all_transactions current_month_str =
     (if all_budgets \<noteq> [] then
        (let n = over_budget_count
                   (category_spending all_budgets all_transactions current_month_str) all_budgets
         in if n = 0 then Inr 25
            else case py_truediv (int (length all_budgets)) 2 of
                   Inl e \<Rightarrow> Inl e
                 | Inr half \<Rightarrow> Inr (if of_nat n \<le> half then 15 else 5))
      else Inr 0)"

text \<open>Income against expenses, 25 points.\<close>

definition income_vs_expense :: "int \<Rightarrow> int \<Rightarrow> int" where
  "income_vs_expense total_income_cm total_spending_cm =
     (if total_income_cm > 0 then
        (if total_income_cm > total_spending_cm then 25
         else if total_income_cm = total_spending_cm then 15
         else 5)
      else 0)"

definition band_of_score :: "int \<Rightarrow> band" where
  "band_of_score s =
     (if s \<ge> 80 then Excellent else if s \<ge> 60 then Good
      else if s \<ge> 40 then Fair else NeedsAttention)"

text \<open>
  \<open>financial_health_score\<close>; \<open>None\<close> is the early return "No transactions available to
  calculate health score", and the debt score is the constant 10 of the source.
\<close>

definition financial_health_score ::
  "transaction list \<Rightarrow> budget list \<Rightarrow> py_datetime \<Rightarrow> py_error + health_report option" where
  "financial_health_score all_transactions all_budgets now =
     (if all_transactions = [] then Inr None
      else case filter_transactions_by_month all_transactions (year now) (month now) of
        Inl e \<Rightarrow> Inl e
      | Inr current_month_transactions \<Rightarrow>
          (let total_income_cm = get_total_income current_month_transactions;
               total_spending_cm = get_total_spending current_month_transactions
           in case savings_rate_score total_income_cm total_spending_cm of
                Inl e \<Rightarrow> Inl e
              | Inr sav \<Rightarrow>
                  (case adherence_score all_budgets all_transactions (strftime_Ym now) of
                     Inl e \<Rightarrow> Inl e
                   | Inr adh \<Rightarrow>
                       (let ive = income_vs_expense total_income_cm total_spending_cm;
                            debt = 10;
                            total = (case sav of None \<Rightarrow> 0 | Some v \<Rightarrow> v) + adh + ive + debt
                        in Inr (Some \<lparr>score = total, savings_score = sav,
                                      budget_adherence_score = adh,
                                      income_vs_expense_score = ive,
                                      debt_score = debt,
                                      score_band = band_of_score total\<rparr>)))))"

section \<open>Properties of the rounding functions\<close>

lemma round_half_even_of_int: "round_half_even (of_int n) = n"
  by (simp add: round_half_even_def)

lemma round_half_even_bounds:
  "\<lfloor>x\<rfloor> \<le> round_half_even x \<and> round_half_even x \<le> \<lfloor>x\<rfloor> + 1"
  by (simp add: round_half_even_def Let_def)

lemma round_half_even_mono:
  assumes "x \<le> y"
  shows "round_half_even x \<le> round_half_even y"
proof (cases "\<lfloor>x\<rfloor> = \<lfloor>y\<rfloor>")
  case True
  then show ?thesis using assms
    by (auto simp: round_half_even_def Let_def)
next
  case False
  then have "\<lfloor>x\<rfloor> + 1 \<le> \<lfloor>y\<rfloor>" using floor_mono[OF assms] by simp
  then show ?thesis
    using round_half_even_bounds[of x] round_half_even_bounds[of y] by linarith
qed

lemma round_half_even_near: "\<bar>of_int (round_half_even x) - x\<bar> \<le> 1/2"
  unfolding round_half_even_def Let_def
  by (auto simp: abs_if) linarith+

lemma round_half_even_tie:
  assumes "\<bar>of_int (round_half_even x) - x\<bar> = 1/2"
  shows "even (round_half_even x)"
proof -
  define f where "f = \<lfloor>x\<rfloor>"
  define r where "r = x - of_int f"
  have r: "0 \<le> r" "r < 1" unfolding r_def f_def by linarith+
  have rhe: "round_half_even x =
      (if r < 1/2 then f else if 1/2 < r then f + 1 else if even f then f else f + 1)"
    by (simp add: round_half_even_def Let_def f_def r_def)
  show ?thesis
  proof (cases "r < 1/2")
    case True
    then have "of_int (round_half_even x) - x = - r" by (simp add: rhe r_def)
    with assms r True show ?thesis by simp
  next
    case False
    note nlt = this
    show ?thesis
    proof (cases "1/2 < r")
      case True
      then have "of_int (round_half_even x) - x = 1 - r" using nlt by (simp add: rhe r_def)
      with assms r True show ?thesis by simp
    next
      case False
      then show ?thesis using nlt by (simp add: rhe)
    qed
  qed
qed

lemma round_half_even_range:
  assumes "2^52 \<le> v" "v < 2^53"
  shows "2^52 \<le> round_half_even v" "round_half_even v \<le> 2^53"
proof -
  have "round_half_even (of_int (2^52)) \<le> round_half_even v"
    by (rule round_half_even_mono) (use assms in simp)
  then show "2^52 \<le> round_half_even v" by (simp only: round_half_even_of_int)
  have "round_half_even v \<le> round_half_even (of_int (2^53))"
    by (rule round_half_even_mono) (use assms in simp)
  then show "round_half_even v \<le> 2^53" by (simp only: round_half_even_of_int)
qed

lemma two_powi_step: "j < k \<Longrightarrow> 2 * (2::real) powi j \<le> 2 powi k"
proof -
  assume "j < k"
  then have "j + 1 \<le> k" by simp
  then have "(2::real) powi (j + 1) \<le> 2 powi k"
    by (intro power_int_increasing) simp_all
  then show ?thesis by (simp add: power_int_add)
qed

text \<open>
  What \<open>to_double_pos\<close> computes on a positive number: for the power of two that brings
  the argument into \<open>[2^52, 2^53)\<close>, the scaled argument rounded to an integer.
\<close>

lemma to_double_pos_scaled:
  "0 < x \<Longrightarrow> \<exists>k::int. 2^52 \<le> x * 2 powi k \<and> x * 2 powi k < 2^53 \<and>
      to_double_pos x = of_int (round_half_even (x * 2 powi k)) / 2 powi k"
proof (induction x rule: to_double_pos.induct)
  case (1 x)
  show ?case
  proof (cases "x < 2^52")
    case True
    with 1 obtain k :: int where k: "2^52 \<le> 2 * x * 2 powi k" "2 * x * 2 powi k < 2^53"
      "to_double_pos (2 * x) = of_int (round_half_even (2 * x * 2 powi k)) / 2 powi k"
      by force
    have e: "(2::real) powi (k + 1) = 2 * 2 powi k"
      by (simp add: power_int_add)
    have "to_double_pos x = to_double_pos (2 * x) / 2"
      using True 1(3) by (subst to_double_pos.simps) simp
    then show ?thesis using k e
      by (intro exI[of _ "k + 1"]) (simp add: mult.assoc mult.left_commute)
  next
    case False
    note nlt = this
    show ?thesis
    proof (cases "2^53 \<le> x")
      case True
      with 1 nlt obtain k :: int where k: "2^52 \<le> x / 2 * 2 powi k" "x / 2 * 2 powi k < 2^53"
        "to_double_pos (x / 2) = of_int (round_half_even (x / 2 * 2 powi k)) / 2 powi k"
        by force
      have e: "(2::real) powi (k - 1) = 2 powi k / 2"
        by (simp add: power_int_diff)
      have sc: "x * 2 powi (k - 1) = x / 2 * 2 powi k"
        by (simp add: e)
      have "to_double_pos x = 2 * to_double_pos (x / 2)"
        using True nlt 1(3) by (subst to_double_pos.simps) simp
      also have "\<dots> = of_int (round_half_even (x / 2 * 2 powi k)) / (2 powi k / 2)"
        by (simp add: k(3))
      finally have f: "to_double_pos x =
          of_int (round_half_even (x / 2 * 2 powi k)) / (2 powi k / 2)" .
      have "to_double_pos x =
          of_int (round_half_even (x * 2 powi (k - 1))) / 2 powi (k - 1)"
        unfolding sc unfolding e by (rule f)
      moreover have "2^52 \<le> x * 2 powi (k - 1)" "x * 2 powi (k - 1) < 2^53"
        unfolding sc using k(1,2) by blast+
      ultimately show ?thesis by blast
    next
      case False
      then have "to_double_pos x = of_int (round_half_even x)"
        using nlt 1(3) by (subst to_double_pos.simps) simp
      then show ?thesis using False nlt
        by (intro exI[of _ 0]) simp
    qed
  qed
qed

lemma to_double_pos_zero: "x \<le> 0 \<Longrightarrow> to_double_pos x = 0"
  by (subst to_double_pos.simps) simp

lemma to_double_pos_positive:
  assumes "0 < x"
  shows "0 < to_double_pos x"
proof -
  from assms obtain k :: int where k: "2^52 \<le> x * 2 powi k" "x * 2 powi k < 2^53"
      "to_double_pos x = of_int (round_half_even (x * 2 powi k)) / 2 powi k"
    using to_double_pos_scaled[of x] by blast
  have "(0::int) < 2^52" by simp
  also have "\<dots> \<le> round_half_even (x * 2 powi k)"
    by (rule round_half_even_range(1)[OF k(1,2)])
  finally have "0 < real_of_int (round_half_even (x * 2 powi k))" by simp
  then show ?thesis unfolding k(3) by simp
qed

lemma to_double_pos_mono:
  assumes "0 < x" "x \<le> y"
  shows "to_double_pos x \<le> to_double_pos y"
proof -
  from assms obtain j :: int where j: "2^52 \<le> x * 2 powi j" "x * 2 powi j < 2^53"
      "to_double_pos x = of_int (round_half_even (x * 2 powi j)) / 2 powi j"
    using to_double_pos_scaled[of x] by blast
  from assms obtain k :: int where k: "2^52 \<le> y * 2 powi k" "y * 2 powi k < 2^53"
      "to_double_pos y = of_int (round_half_even (y * 2 powi k)) / 2 powi k"
    using to_double_pos_scaled[of y] by force
  have kj: "k \<le> j"
  proof (rule ccontr)
    assume "\<not> k \<le> j"
    then have "2 * (2::real) powi j \<le> 2 powi k" by (intro two_powi_step) simp
    then have "y * (2 * 2 powi j) \<le> y * 2 powi k"
      using assms by (intro mult_left_mono) simp_all
    moreover have "x * (2 * 2 powi j) \<le> y * (2 * 2 powi j)"
      using assms by (intro mult_right_mono) simp_all
    ultimately have "x * (2 * 2 powi j) < 2^53" using k(2) by linarith
    then have "2 * (x * 2 powi j) < 2^53" by (simp only: mult.left_commute)
    with j(1) show False by simp
  qed
  show ?thesis
  proof (cases "k = j")
    case True
    have "x * 2 powi j \<le> y * 2 powi j"
      using assms by (intro mult_right_mono) simp_all
    then have "round_half_even (x * 2 powi j) \<le> round_half_even (y * 2 powi j)"
      by (rule round_half_even_mono)
    then show ?thesis unfolding j(3) k(3) True
      by (simp add: divide_right_mono)
  next
    case False
    with kj have "k < j" by simp
    then have st: "2 * (2::real) powi k \<le> 2 powi j" by (rule two_powi_step)
    have "to_double_pos x \<le> 2^53 / 2 powi j"
    proof -
      have "real_of_int (round_half_even (x * 2 powi j)) \<le> real_of_int (2^53)"
        using round_half_even_range(2)[OF j(1,2)] by (simp only: of_int_le_iff)
      then show ?thesis unfolding j(3) by (intro divide_right_mono) simp_all
    qed
    also have "\<dots> \<le> 2^53 / (2 * 2 powi k)"
      using st by (intro divide_left_mono) simp_all
    also have "\<dots> = 2^52 / 2 powi k" by simp
    also have "\<dots> \<le> to_double_pos y"
    proof -
      have "real_of_int (2^52) \<le> real_of_int (round_half_even (y * 2 powi k))"
        using round_half_even_range(1)[OF k(1,2)] by (simp only: of_int_le_iff)
      then show ?thesis unfolding k(3) by (intro divide_right_mono) simp_all
    qed
    finally show ?thesis .
  qed
qed

lemma to_double_pos_dyadic:
  assumes "0 < m" "m < 2^53"
  shows "to_double_pos (of_int m * 2 powi e) = of_int m * 2 powi e"
proof -
  define x :: real where "x = of_int m * 2 powi e"
  have xpos: "0 < x" using assms by (simp add: x_def)
  then obtain k :: int where k: "2^52 \<le> x * 2 powi k" "x * 2 powi k < 2^53"
      "to_double_pos x = of_int (round_half_even (x * 2 powi k)) / 2 powi k"
    using to_double_pos_scaled[of x] by blast
  have xk: "x * 2 powi k = of_int m * 2 powi (e + k)"
    unfolding x_def by (simp add: power_int_add)
  have "real_of_int m < real_of_int (2^53)"
    using assms(2) by (simp only: of_int_less_iff)
  then have mr: "real_of_int m < 2^53" by simp
  have mp: "0 < real_of_int m" using assms(1) by simp
  have "0 \<le> e + k"
  proof (rule ccontr)
    assume "\<not> 0 \<le> e + k"
    then have "e + k < 0" by simp
    then have "2 * (2::real) powi (e + k) \<le> 2 powi 0" by (rule two_powi_step)
    then have "(2::real) powi (e + k) \<le> 1/2" by simp
    then have "of_int m * (2::real) powi (e + k) \<le> of_int m * (1/2)"
      using mp by (intro mult_left_mono) simp_all
    also have "\<dots> < 2^52" using mr by simp
    finally have "x * 2 powi k < 2^52" by (simp only: xk)
    then show False using k(1) by linarith
  qed
  then obtain n :: nat where n: "e + k = int n" using nonneg_int_cases by blast
  have "(2::real) powi (e + k) = 2 ^ n" by (simp only: n power_int_of_nat)
  then have xi: "x * 2 powi k = of_int (m * 2 ^ n)"
    by (simp add: xk)
  then have "round_half_even (x * 2 powi k) = m * 2 ^ n"
    by (simp only: round_half_even_of_int)
  then have "to_double_pos x = of_int (m * 2 ^ n) / 2 powi k"
    by (simp only: k(3))
  also have "\<dots> = x * 2 powi k / 2 powi k"
    by (simp only: xi)
  also have "\<dots> = x" by simp
  finally show ?thesis by (simp only: x_def)
qed

text \<open>Rounding is monotone, exact on short dyadic numbers, and keeps the sign.\<close>

lemma to_double_zero: "to_double 0 = 0"
  by (simp add: to_double_def to_double_pos_zero)

lemma to_double_minus: "to_double (- x) = - to_double x"
  by (cases "x = 0") (auto simp: to_double_def to_double_pos_zero)

lemma to_double_positive: "0 < x \<Longrightarrow> 0 < to_double x"
  by (simp add: to_double_def to_double_pos_positive)

lemma to_double_negative: "x < 0 \<Longrightarrow> to_double x < 0"
  by (simp add: to_double_def to_double_pos_positive)

lemma to_double_mono:
  assumes "x \<le> y"
  shows "to_double x \<le> to_double y"
proof -
  consider "0 < x" | "x \<le> 0" "0 \<le> y" | "y < 0" by linarith
  then show ?thesis
  proof cases
    case 1
    then show ?thesis using assms by (simp add: to_double_def to_double_pos_mono)
  next
    case 2
    have "to_double x \<le> 0"
      using 2(1) to_double_negative[of x] to_double_zero by (cases "x = 0") auto
    moreover have "0 \<le> to_double y"
      using 2(2) to_double_positive[of y] to_double_zero by (cases "y = 0") auto
    ultimately show ?thesis by simp
  next
    case 3
    then have "to_double_pos (- y) \<le> to_double_pos (- x)"
      using assms by (intro to_double_pos_mono) simp_all
    then show ?thesis using 3 assms by (simp add: to_double_def)
  qed
qed

lemma to_double_dyadic:
  assumes "\<bar>m\<bar> < 2^53"
  shows "to_double (of_int m / 2 ^ j) = of_int m / 2 ^ j"
proof -
  have p: "(2::real) powi (- int j) = 1 / 2 ^ j"
    by (simp add: power_int_minus field_simps)
  have pos: "to_double (of_int n / 2 ^ j) = of_int n / 2 ^ j" if "0 < n" "n < 2^53" for n :: int
  proof -
    have "to_double_pos (of_int n * 2 powi (- int j)) = of_int n * 2 powi (- int j)"
      using that by (rule to_double_pos_dyadic)
    then have "to_double_pos (of_int n / 2 ^ j) = of_int n / 2 ^ j" by (simp add: p)
    moreover have "\<not> real_of_int n / 2 ^ j < 0" using that(1) by (simp add: not_less)
    ultimately show ?thesis by (simp only: to_double_def if_False)
  qed
  consider "m = 0" | "0 < m" | "m < 0" by linarith
  then show ?thesis
  proof cases
    case 1
    then show ?thesis by (simp add: to_double_zero)
  next
    case 2
    then show ?thesis using assms by (intro pos) simp_all
  next
    case 3
    then have "to_double (of_int (- m) / 2 ^ j) = of_int (- m) / 2 ^ j"
      using assms by (intro pos) simp_all
    then have "to_double (- (of_int m / 2 ^ j)) = - (of_int m / 2 ^ j)" by simp
    then show ?thesis by (simp only: to_double_minus neg_equal_iff_equal)
  qed
qed

lemma to_double_of_int: "\<bar>n\<bar> < 2^53 \<Longrightarrow> to_double (of_int n) = of_int n"
  using to_double_dyadic[of n 0] by simp

lemma float_of_int_exact: "\<bar>n\<bar> < 2^53 \<Longrightarrow> float_of_int n = of_int n"
  by (simp add: float_of_int_def to_double_of_int)

lemma float_of_int_100: "float_of_int 100 = 100"
  using float_of_int_exact[of 100] by simp

text \<open>The literals of the source, as the doubles they denote.\<close>

lemma literal_0_7: "to_double (7/10) = 6305039478318694 / 2^53"
  by (simp add: to_double_def to_double_pos.simps round_half_even_def Let_def)

lemma literal_0_1: "to_double (1/10) = 3602879701896397 / 2^55"
  by (simp add: to_double_def to_double_pos.simps round_half_even_def Let_def)

lemma literal_0_20: "to_double (20/100) = 3602879701896397 / 2^54"
  by (simp add: to_double_def to_double_pos.simps round_half_even_def Let_def)

section \<open>Aggregation\<close>

lemma dict_values_sum_Nil: "dict_values_sum [] = 0"
  by (simp add: dict_values_sum_def)

lemma dict_values_sum_set:
  "dict_values_sum (dict_set d k v) = dict_values_sum d - dict_get d k 0 + v"
  by (induction d) (auto simp: dict_values_sum_def dict_get_def)

lemma dict_values_sum_add: "dict_values_sum (dict_add d k v) = dict_values_sum d + v"
  by (simp add: dict_add_def dict_values_sum_set)

lemma spending_by_category_loop_sum:
  "dict_values_sum (spending_by_category_loop d ts) = dict_values_sum d + get_total_spending ts"
  by (induction ts arbitrary: d) (simp_all add: get_total_spending_def dict_values_sum_add)

text \<open>
  C7.  For every list of transactions, the values of the expense grouping
  (\<open>get_monthly_spending_by_category\<close>) summed over all categories equal the total
  expense (\<open>get_total_spending\<close>).
\<close>

theorem category_totals_sum_to_total_spending:
  "dict_values_sum (get_monthly_spending_by_category transactions) = get_total_spending transactions"
  by (simp add: get_monthly_spending_by_category_def spending_by_category_loop_sum
      dict_values_sum_Nil)

section \<open>Period filter\<close>

lemma strptime_Ymd_error: "strptime_Ymd s = Inl e \<Longrightarrow> e = ValueError"
  by (cases e) (auto simp: strptime_Ymd_def Let_def split: list.splits if_splits option.splits prod.splits)

lemma month_matches_valid:
  "valid_date (date t) \<Longrightarrow> month_matches t y m = Inr (date_in_month (date t) y m)"
  by (auto simp: valid_date_def month_matches_def date_in_month_def split: sum.splits)

lemma month_matches_invalid:
  "\<not> valid_date (date t) \<Longrightarrow> month_matches t y m = Inl ValueError"
  by (auto simp: valid_date_def month_matches_def split: sum.splits dest: strptime_Ymd_error)

lemma filter_all_valid:
  "\<forall>t \<in> set ts. valid_date (date t) \<Longrightarrow>
   filter_transactions_by_month ts y m = Inr (filter (\<lambda>t. date_in_month (date t) y m) ts)"
  by (induction ts) (simp_all add: month_matches_valid)

lemma filter_some_invalid:
  "\<exists>t \<in> set ts. \<not> valid_date (date t) \<Longrightarrow> filter_transactions_by_month ts y m = Inl ValueError"
proof (induction ts)
  case Nil
  then show ?case by simp
next
  case (Cons t ts)
  show ?case
  proof (cases "valid_date (date t)")
    case True
    with Cons.prems have "\<exists>u \<in> set ts. \<not> valid_date (date u)" by auto
    then have "filter_transactions_by_month ts y m = Inl ValueError" by (rule Cons.IH)
    then show ?thesis using True by (simp add: month_matches_valid)
  next
    case False
    then show ?thesis by (simp add: month_matches_invalid)
  qed
qed

lemma filter_error_cases:
  "filter_transactions_by_month ts y m = Inl e \<Longrightarrow>
   e = ValueError \<and> (\<exists>t \<in> set ts. \<not> valid_date (date t))"
  using filter_all_valid[of ts y m] filter_some_invalid[of ts y m] by auto

text \<open>
  C9.  \<open>filter_transactions_by_month\<close> returns exactly the transactions whose date has
  the given calendar year and month, in their order, when every date string parses; when
  some date string does not parse it raises \<open>ValueError\<close> and skips nothing.
\<close>

theorem filter_by_month_exact_or_ValueError:
  "((\<forall>t \<in> set transactions. valid_date (date t)) \<longrightarrow>
      filter_transactions_by_month transactions y m =
        Inr (filter (\<lambda>t. date_in_month (date t) y m) transactions)) \<and>
   ((\<exists>t \<in> set transactions. \<not> valid_date (date t)) \<longrightarrow>
      filter_transactions_by_month transactions y m = Inl ValueError)"
  using filter_all_valid[of transactions y m] filter_some_invalid[of transactions y m]
  by blast

lemma strptime_examples:
  "strptime_Ymd ''2024-05-03'' = Inr \<lparr>year = 2024, month = 5, day = 3\<rparr>"
  "strptime_Ymd ''2024-5-3'' = Inr \<lparr>year = 2024, month = 5, day = 3\<rparr>"
  "strptime_Ymd ''2024-06-30'' = Inr \<lparr>year = 2024, month = 6, day = 30\<rparr>"
  "strptime_Ymd ''2023-05-03'' = Inr \<lparr>year = 2023, month = 5, day = 3\<rparr>"
  "strptime_Ymd ''2024-13-01'' = Inl ValueError"
  "strptime_Ymd ''2023-02-29'' = Inl ValueError"
  "strptime_Ymd ''03/05/2024'' = Inl ValueError"
  by (simp_all add: strptime_Ymd_def is_digit_def is_nonzero_digit_def digit_value_def
      days_in_month_def is_leap_def)

theorem filter_by_month_witness:
  "filter_transactions_by_month
     [\<lparr>date = ''2024-05-03'', type = ''expense'', category = ''Food'', description = ''lunch'', amount = 1250\<rparr>,
      \<lparr>date = ''2024-06-30'', type = ''expense'', category = ''Bills'', description = ''power'', amount = 9000\<rparr>,
      \<lparr>date = ''2023-05-03'', type = ''income'', category = ''Salary'', description = ''pay'', amount = 500000\<rparr>]
     2024 5
   = Inr [\<lparr>date = ''2024-05-03'', type = ''expense'', category = ''Food'', description = ''lunch'', amount = 1250\<rparr>]
   \<and>
   filter_transactions_by_month
     [\<lparr>date = ''2024-05-03'', type = ''expense'', category = ''Food'', description = ''lunch'', amount = 1250\<rparr>,
      \<lparr>date = ''2024-13-01'', type = ''expense'', category = ''Bills'', description = ''power'', amount = 9000\<rparr>]
     2024 5
   = Inl ValueError"
  using filter_by_month_exact_or_ValueError[of
     "[\<lparr>date = ''2024-05-03'', type = ''expense'', category = ''Food'', description = ''lunch'', amount = 1250\<rparr>,
      \<lparr>date = ''2024-06-30'', type = ''expense'', category = ''Bills'', description = ''power'', amount = 9000\<rparr>,
      \<lparr>date = ''2023-05-03'', type = ''income'', category = ''Salary'', description = ''pay'', amount = 500000\<rparr>]" 2024 5]
    filter_by_month_exact_or_ValueError[of
     "[\<lparr>date = ''2024-05-03'', type = ''expense'', category = ''Food'', description = ''lunch'', amount = 1250\<rparr>,
      \<lparr>date = ''2024-13-01'', type = ''expense'', category = ''Bills'', description = ''power'', amount = 9000\<rparr>]" 2024 5]
  by (simp add: valid_date_def date_in_month_def strptime_examples)

section \<open>Financial health score\<close>

lemma savings_rate_score_cases:
  "savings_rate_score i s = Inr None \<or> savings_rate_score i s = Inr (Some 0) \<or>
   savings_rate_score i s = Inr (Some 10) \<or> savings_rate_score i s = Inr (Some 20) \<or>
   savings_rate_score i s = Inr (Some 30)"
  by (simp add: savings_rate_score_def py_truediv_def Let_def)

lemma adherence_score_cases:
  "adherence_score bs ts c = Inr 0 \<or> adherence_score bs ts c = Inr 5 \<or>
   adherence_score bs ts c = Inr 15 \<or> adherence_score bs ts c = Inr 25"
  by (simp add: adherence_score_def py_truediv_def Let_def)

lemma income_vs_expense_cases:
  "income_vs_expense i s \<in> {0, 5, 15, 25}"
  by (simp add: income_vs_expense_def)

text \<open>
  C10.  Whenever the ledger is not empty, \<open>financial_health_score\<close> either stops with
  the \<open>ValueError\<close> of an unparseable date, or computes a score, and every score it
  computes lies between 10 and 90: the debt component is the constant 10, and the other
  three are at most 30, 25 and 25.  The score is never 100.
\<close>

theorem health_score_between_10_and_90:
  assumes "all_transactions \<noteq> []"
  shows "case financial_health_score all_transactions all_budgets now of
           Inl e \<Rightarrow> e = ValueError \<and> (\<exists>t \<in> set all_transactions. \<not> valid_date (date t))
         | Inr None \<Rightarrow> False
         | Inr (Some r) \<Rightarrow>
             10 \<le> score r \<and> score r \<le> 90 \<and> debt_score r = 10 \<and>
             score r = (case savings_score r of None \<Rightarrow> 0 | Some v \<Rightarrow> v)
                       + budget_adherence_score r + income_vs_expense_score r + debt_score r \<and>
             (case savings_score r of None \<Rightarrow> True | Some v \<Rightarrow> 0 \<le> v \<and> v \<le> 30) \<and>
             0 \<le> budget_adherence_score r \<and> budget_adherence_score r \<le> 25 \<and>
             0 \<le> income_vs_expense_score r \<and> income_vs_expense_score r \<le> 25"
proof (cases "filter_transactions_by_month all_transactions (year now) (month now)")
  case (Inl e)
  then show ?thesis
    using assms filter_error_cases[OF Inl] by (simp add: financial_health_score_def)
next
  case (Inr cm)
  show ?thesis
    using assms savings_rate_score_cases[of "get_total_income cm" "get_total_spending cm"]
      adherence_score_cases[of all_budgets all_transactions "strftime_Ym now"]
      income_vs_expense_cases[of "get_total_income cm" "get_total_spending cm"]
    by (auto simp: financial_health_score_def Inr Let_def)
qed

lemma savings_rate_30_percent: "savings_rate_score 100000 70000 = Inr (Some 30)"
  by (simp add: savings_rate_score_def py_truediv_def Let_def float_mul_def float_of_int_100
      to_double_def to_double_pos.simps round_half_even_def)

text \<open>
  C2.  In a month with income 100000 and expenses 70000 paisa, and with exactly one
  budget whose category has not spent more than the budget, the score is 90: 30 for the
  savings rate, 25 for budget adherence, 25 for income against expenses and 10 for debt,
  and 90 is in the band "excellent".
\<close>

theorem health_score_example_is_90:
  assumes "filter_transactions_by_month all_transactions (year now) (month now) = Inr cm"
    and "get_total_income cm = 100000"
    and "get_total_spending cm = 70000"
    and "all_budgets = [b]"
    and "dict_get (category_spending all_budgets all_transactions (strftime_Ym now))
           (budget_category b) 0 \<le> budget_amount b"
  shows "financial_health_score all_transactions all_budgets now =
           Inr (Some \<lparr>score = 90, savings_score = Some 30, budget_adherence_score = 25,
                       income_vs_expense_score = 25, debt_score = 10, score_band = Excellent\<rparr>)"
proof -
  have ne: "all_transactions \<noteq> []"
  proof
    assume "all_transactions = []"
    with assms(1) have "cm = []" by simp
    with assms(2) show False by (simp add: get_total_income_def)
  qed
  have adh: "adherence_score all_budgets all_transactions (strftime_Ym now) = Inr 25"
    using assms(5) by (simp add: adherence_score_def over_budget_count_def assms(4))
  show ?thesis
    using ne
    by (simp add: financial_health_score_def assms(1,2,3) savings_rate_30_percent adh
        income_vs_expense_def band_of_score_def)
qed

theorem health_score_example_witness:
  "financial_health_score
     [\<lparr>date = ''2024-05-01'', type = ''income'', category = ''Salary'', description = ''pay'', amount = 100000\<rparr>,
      \<lparr>date = ''2024-05-10'', type = ''expense'', category = ''Food'', description = ''groceries'', amount = 70000\<rparr>]
     [\<lparr>budget_category = ''Food'', budget_amount = 80000\<rparr>]
     \<lparr>year = 2024, month = 5, day = 15\<rparr>
   = Inr (Some \<lparr>score = 90, savings_score = Some 30, budget_adherence_score = 25,
                 income_vs_expense_score = 25, debt_score = 10, score_band = Excellent\<rparr>)"
proof -
  let ?txs = "[\<lparr>date = ''2024-05-01'', type = ''income'', category = ''Salary'', description = ''pay'', amount = 100000\<rparr>,
      \<lparr>date = ''2024-05-10'', type = ''expense'', category = ''Food'', description = ''groceries'', amount = 70000\<rparr>]"
  let ?now = "\<lparr>year = 2024, month = 5, day = 15\<rparr>"
  let ?b = "\<lparr>budget_category = ''Food'', budget_amount = 80000\<rparr>"
  have p: "strptime_Ymd ''2024-05-01'' = Inr \<lparr>year = 2024, month = 5, day = 1\<rparr>"
    "strptime_Ymd ''2024-05-10'' = Inr \<lparr>year = 2024, month = 5, day = 10\<rparr>"
    by (simp_all add: strptime_Ymd_def is_digit_def is_nonzero_digit_def digit_value_def
        days_in_month_def is_leap_def)
  have f: "filter_transactions_by_month ?txs (year ?now) (month ?now) = Inr ?txs"
    by (simp add: month_matches_def p)
  have i: "get_total_income ?txs = 100000" by (simp add: get_total_income_def)
  have s: "get_total_spending ?txs = 70000" by (simp add: get_total_spending_def)
  have m: "strftime_Ym ?now = ''2024-05''"
    by (simp add: strftime_Ym_def digit_char_def)
  have c: "dict_get (category_spending [?b] ?txs (strftime_Ym ?now)) (budget_category ?b) 0
             \<le> budget_amount ?b"
    by (simp add: m category_spending_def dict_contains_def dict_add_def dict_get_def)
  show ?thesis
    by (rule health_score_example_is_90[OF f i s refl c])
qed

theorem health_score_bounds_witness:
  "[\<lparr>date = ''2024-04-30'', type = ''expense'', category = ''Food'', description = ''dinner'', amount = 2500\<rparr>] \<noteq> [] \<and>
   financial_health_score
     [\<lparr>date = ''2024-04-30'', type = ''expense'', category = ''Food'', description = ''dinner'', amount = 2500\<rparr>]
     [] \<lparr>year = 2024, month = 5, day = 15\<rparr>
   = Inr (Some \<lparr>score = 10, savings_score = None, budget_adherence_score = 0,
                 income_vs_expense_score = 0, debt_score = 10, score_band = NeedsAttention\<rparr>)"
proof -
  let ?txs = "[\<lparr>date = ''2024-04-30'', type = ''expense'', category = ''Food'', description = ''dinner'', amount = 2500\<rparr>]"
  have p: "strptime_Ymd ''2024-04-30'' = Inr \<lparr>year = 2024, month = 4, day = 30\<rparr>"
    by (simp add: strptime_Ymd_def is_digit_def is_nonzero_digit_def digit_value_def
        days_in_month_def is_leap_def)
  have ne: "?txs \<noteq> []" by simp
  show ?thesis
    using health_score_between_10_and_90[OF ne, of "[]" "\<lparr>year = 2024, month = 5, day = 15\<rparr>"]
    by (simp add: financial_health_score_def month_matches_def p get_total_income_def
        get_total_spending_def savings_rate_score_def adherence_score_def income_vs_expense_def
        band_of_score_def)
qed

section \<open>Budget evaluation\<close>

text \<open>
  C6.  A budget whose amount is 0 is reported at 0 percent whatever was spent in its
  category: \<open>view_budgets\<close> shows it with status OK, \<open>get_spending_alerts\<close> raises
  no alert for it, and neither divides by zero.
\<close>

theorem zero_budget_has_zero_utilization:
  assumes "budget_amount b = 0"
  shows "utilization_percent spent (budget_amount b) = Inr 0 \<and>
         view_budgets_row cs b =
           Inr \<lparr>row_category = budget_category b, row_budget = 0,
                row_spent = dict_get cs (budget_category b) 0,
                row_remaining = - dict_get cs (budget_category b) 0,
                row_utilization = 0, row_status = OK\<rparr> \<and>
         budget_alert cs b = Inr None"
  using assms
  by (simp add: utilization_percent_def view_budgets_row_def budget_alert_def status_text_def
      Let_def)

theorem zero_budget_witness:
  "budget_amount \<lparr>budget_category = ''Food'', budget_amount = 0\<rparr> = 0 \<and>
   utilization_percent 5000 0 = Inr 0 \<and>
   view_budgets_row [(''Food'', 5000)] \<lparr>budget_category = ''Food'', budget_amount = 0\<rparr> =
     Inr \<lparr>row_category = ''Food'', row_budget = 0, row_spent = 5000, row_remaining = - 5000,
          row_utilization = 0, row_status = OK\<rparr> \<and>
   budget_alert [(''Food'', 5000)] \<lparr>budget_category = ''Food'', budget_amount = 0\<rparr> = Inr None"
  using zero_budget_has_zero_utilization
    [of "\<lparr>budget_category = ''Food'', budget_amount = 0\<rparr>" 5000 "[(''Food'', 5000)]"]
  by (simp add: dict_get_def)

lemma utilization_examples:
  "utilization_percent 10000 10000 = Inr 100"
  "utilization_percent 7000 10000 = Inr 70"
  "utilization_percent 6999 10000 = Inr (4925108404994703 / 2^46)"
  "utilization_percent 63 90 = Inr 70"
  by (simp_all add: utilization_percent_def py_truediv_def float_mul_def float_of_int_100
      to_double_def to_double_pos.simps round_half_even_def Let_def)

lemma report_threshold_examples:
  "float_mul (float_of_int 10000) (to_double (7/10)) = 7000"
  "float_mul (float_of_int 90) (to_double (7/10)) = 63 - 1 / 2^47"
  by (simp_all add: float_mul_def float_of_int_def
      to_double_def to_double_pos.simps round_half_even_def Let_def)

text \<open>
  C1.  The two places that name a budget status, run on the same data at the boundaries
  of the claim.  For a budget of 10000 and current-month expenses of 10000 in its
  category, \<open>view_budgets\<close> reports OVER and the monthly report WARNING; for expenses
  of 7000, exactly 70 percent, \<open>view_budgets\<close> reports WARNING and the monthly report
  OK.  For a spend of 63 against a budget of 90, also exactly 70 percent, the monthly
  report answers WARNING.
\<close>

theorem report_status_differs_at_boundaries:
  "view_budgets [\<lparr>budget_category = ''Food'', budget_amount = 10000\<rparr>]
     [\<lparr>date = ''2024-05-10'', type = ''expense'', category = ''Food'', description = ''groceries'', amount = 10000\<rparr>]
     \<lparr>year = 2024, month = 5, day = 15\<rparr>
     = Inr (Some [\<lparr>row_category = ''Food'', row_budget = 10000, row_spent = 10000,
                    row_remaining = 0, row_utilization = 100, row_status = OVER\<rparr>]) \<and>
   report_budget_performance [\<lparr>budget_category = ''Food'', budget_amount = 10000\<rparr>]
     [\<lparr>date = ''2024-05-10'', type = ''expense'', category = ''Food'', description = ''groceries'', amount = 10000\<rparr>]
     \<lparr>year = 2024, month = 5, day = 15\<rparr>
     = [(''Food'', 10000, 10000, WARNING)] \<and>
   view_budgets [\<lparr>budget_category = ''Food'', budget_amount = 10000\<rparr>]
     [\<lparr>date = ''2024-05-10'', type = ''expense'', category = ''Food'', description = ''groceries'', amount = 7000\<rparr>]
     \<lparr>year = 2024, month = 5, day = 15\<rparr>
     = Inr (Some [\<lparr>row_category = ''Food'', row_budget = 10000, row_spent = 7000,
                    row_remaining = 3000, row_utilization = 70, row_status = WARNING\<rparr>]) \<and>
   report_budget_performance [\<lparr>budget_category = ''Food'', budget_amount = 10000\<rparr>]
     [\<lparr>date = ''2024-05-10'', type = ''expense'', category = ''Food'', description = ''groceries'', amount = 7000\<rparr>]
     \<lparr>year = 2024, month = 5, day = 15\<rparr>
     = [(''Food'', 10000, 7000, OK)] \<and>
   report_status 63 90 = WARNING"
proof -
  have m: "strftime_Ym \<lparr>year = 2024, month = 5, day = 15\<rparr> = ''2024-05''"
    by (simp add: strftime_Ym_def digit_char_def)
  have cs: "category_spending [\<lparr>budget_category = ''Food'', budget_amount = 10000\<rparr>]
      [\<lparr>date = ''2024-05-10'', type = ''expense'', category = ''Food'', description = ''groceries'', amount = v\<rparr>]
      ''2024-05'' = [(''Food'', v)]" for v
    by (simp add: category_spending_def dict_contains_def dict_add_def dict_get_def)
  show ?thesis
    by (simp add: view_budgets_def report_budget_performance_def m cs view_budgets_row_def
        dict_get_def utilization_examples status_text_def report_status_def
        report_threshold_examples Let_def)
qed

section \<open>Money handling\<close>

lemma float_products:
  "float_mul (1/8) (float_of_int 100) = 25/2"
  "float_mul (to_double (5/1000)) (float_of_int 100) = 1/2"
  "float_mul (to_double (- 5/1000)) (float_of_int 100) = - 1/2"
  by (simp_all add: float_mul_def float_of_int_100
      to_double_def to_double_pos.simps round_half_even_def Let_def)

text \<open>
  C4, as the specification states it, fails: an amount of 0.125 is 12.5 paisa, which
  \<open>to_paisa\<close> rounds to 12, not to 13; and the floats written 0.005 and -0.005 give the
  product 0.5 and -0.5, which it rounds to 0, not to 1 and -1.
\<close>

theorem to_paisa_not_half_away_from_zero:
  "to_paisa (1/8) = 12 \<and> round_half_away_from_zero (1/8 * 100) = 13 \<and>
   to_paisa (to_double (5/1000)) = 0 \<and> round_half_away_from_zero (5/1000 * 100) = 1 \<and>
   to_paisa (to_double (- 5/1000)) = 0 \<and> round_half_away_from_zero (- 5/1000 * 100) = - 1"
proof -
  have "to_paisa (1/8) = 12"
    unfolding to_paisa_def float_products by (simp add: round_half_even_def)
  moreover have "to_paisa (to_double (5/1000)) = 0"
    unfolding to_paisa_def float_products by (simp add: round_half_even_def)
  moreover have "to_paisa (to_double (- 5/1000)) = 0"
    unfolding to_paisa_def float_products by (simp add: round_half_even_def)
  moreover have "round_half_away_from_zero (1/8 * 100) = 13"
    "round_half_away_from_zero (5/1000 * 100) = 1"
    "round_half_away_from_zero (- 5/1000 * 100) = - 1"
    by (simp_all add: round_half_away_from_zero_def)
  ultimately show ?thesis by blast
qed

text \<open>
  C4, amended.  \<open>to_paisa x\<close> is an integer nearest to the double-precision product
  \<open>x * 100\<close>, and when that product lies exactly half way between two integers it is
  the even one (Python's \<open>round\<close>).
\<close>

theorem to_paisa_rounds_half_to_even:
  "\<bar>of_int (to_paisa x) - float_mul x (float_of_int 100)\<bar> \<le> 1/2 \<and>
   (\<bar>of_int (to_paisa x) - float_mul x (float_of_int 100)\<bar> = 1/2 \<longrightarrow> even (to_paisa x))"
  unfolding to_paisa_def
  using round_half_even_near[of "float_mul x (float_of_int 100)"]
    round_half_even_tie[of "float_mul x (float_of_int 100)"]
  by blast

theorem to_paisa_half_to_even_witness:
  "\<bar>of_int (to_paisa (1/8)) - float_mul (1/8) (float_of_int 100)\<bar> = 1/2 \<and> even (to_paisa (1/8))"
  using to_paisa_rounds_half_to_even[of "1/8"]
  unfolding to_paisa_def float_products by (simp add: round_half_even_def)

section \<open>Comparing an int with a float product\<close>

lemma to_double_le_dyadic:
  assumes "x \<le> of_int m / 2 ^ j" "\<bar>m\<bar> < 2^53"
  shows "to_double x \<le> of_int m / 2 ^ j"
  using to_double_mono[OF assms(1)] to_double_dyadic[OF assms(2), of j] by simp

lemma to_double_ge_dyadic:
  assumes "of_int m / 2 ^ j \<le> x" "\<bar>m\<bar> < 2^53"
  shows "of_int m / 2 ^ j \<le> to_double x"
  using to_double_mono[OF assms(1)] to_double_dyadic[OF assms(2), of j] by simp

lemma to_double_ge_int:
  assumes "of_int n \<le> x" "\<bar>n\<bar> < 2^53"
  shows "of_int n \<le> to_double x"
  using to_double_ge_dyadic[of n 0 x] assms by simp

text \<open>
  \<open>monthly_income * 0.20\<close> against an int: below \<open>2^52\<close> the product is so close to a
  fifth of the income that no int lies between them.
\<close>

lemma fifth_threshold:
  assumes "0 < n" "n < 2^52"
  shows "of_int a > float_mul (float_of_int n) (to_double (20/100)) \<longleftrightarrow> n < 5 * a"
proof -
  define c :: real where "c = 3602879701896397 / 2^54"
  define T where "T = to_double (of_int n * c)"
  have fn: "float_of_int n = of_int n"
    using assms by (intro float_of_int_exact) simp
  have T: "float_mul (float_of_int n) (to_double (20/100)) = T"
    by (simp only: float_mul_def fn literal_0_20 T_def c_def)
  have nr: "0 < real_of_int n" "real_of_int n < 2^52"
    using assms by simp_all
  show ?thesis
  proof
    assume gt: "of_int a > float_mul (float_of_int n) (to_double (20/100))"
    show "n < 5 * a"
    proof (rule ccontr)
      assume "\<not> n < 5 * a"
      then have le: "5 * a \<le> n" by simp
      have "of_int a \<le> T"
      proof (cases "a \<le> 0")
        case True
        have "0 < of_int n * c" using nr by (simp add: c_def)
        then have "0 < T" unfolding T_def by (rule to_double_positive)
        with True show ?thesis by simp
      next
        case False
        then have "\<bar>a\<bar> < 2^53" using le assms by simp
        moreover have "real_of_int (5 * a) \<le> real_of_int n"
          using le by (simp only: of_int_le_iff)
        then have "5 * real_of_int a \<le> real_of_int n" by simp
        then have "of_int a \<le> of_int n * c" unfolding c_def using nr(1) by simp
        ultimately show ?thesis unfolding T_def by (intro to_double_ge_int)
      qed
      with gt[unfolded T] show False by linarith
    qed
  next
    assume lt: "n < 5 * a"
    define k where "k = n div 5"
    have k: "5 * k \<le> n" "n \<le> 5 * k + 4" unfolding k_def by simp_all
    have ka: "k + 1 \<le> a" using lt k by simp
    have "real_of_int n \<le> real_of_int (5 * k + 4)"
      using k(2) by (simp only: of_int_le_iff)
    then have kr: "real_of_int n \<le> 5 * real_of_int k + 4" by simp
    have "of_int n * c \<le> of_int (8 * k + 7) / 2 ^ 3"
      unfolding c_def using kr nr by simp
    moreover have "\<bar>8 * k + 7\<bar> < 2^53" using k assms by simp
    ultimately have "T \<le> of_int (8 * k + 7) / 2 ^ 3"
      unfolding T_def by (rule to_double_le_dyadic)
    also have "\<dots> < of_int (k + 1)" by simp
    also have "\<dots> \<le> of_int a" using ka by (simp only: of_int_le_iff)
    finally show "of_int a > float_mul (float_of_int n) (to_double (20/100))"
      by (simp only: T)
  qed
qed


text \<open>\<open>t0 * 0.1\<close> against an int, in the same way.\<close>

lemma tenth_threshold:
  assumes "0 < n" "n < 2^52" "0 \<le> d"
  shows "of_int d \<le> float_mul (float_of_int n) (to_double (1/10)) \<longleftrightarrow> 10 * d \<le> n"
proof -
  define c :: real where "c = 3602879701896397 / 2^55"
  define T where "T = to_double (of_int n * c)"
  have fn: "float_of_int n = of_int n"
    using assms by (intro float_of_int_exact) simp
  have T: "float_mul (float_of_int n) (to_double (1/10)) = T"
    by (simp only: float_mul_def fn literal_0_1 T_def c_def)
  have nr: "0 < real_of_int n" "real_of_int n < 2^52"
    using assms by simp_all
  show ?thesis
  proof
    assume le: "10 * d \<le> n"
    then have "\<bar>d\<bar> < 2^53" using assms by simp
    moreover have "real_of_int (10 * d) \<le> real_of_int n"
      using le by (simp only: of_int_le_iff)
    then have "10 * real_of_int d \<le> real_of_int n" by simp
    then have "of_int d \<le> of_int n * c" unfolding c_def using nr(1) by simp
    ultimately have "of_int d \<le> T" unfolding T_def by (intro to_double_ge_int)
    then show "of_int d \<le> float_mul (float_of_int n) (to_double (1/10))"
      by (simp only: T)
  next
    assume le: "of_int d \<le> float_mul (float_of_int n) (to_double (1/10))"
    show "10 * d \<le> n"
    proof (rule ccontr)
      assume "\<not> 10 * d \<le> n"
      then have lt: "n < 10 * d" by simp
      define k where "k = n div 10"
      have k: "10 * k \<le> n" "n \<le> 10 * k + 9" unfolding k_def by simp_all
      have kd: "k + 1 \<le> d" using lt k by simp
      have "real_of_int n \<le> real_of_int (10 * k + 9)"
        using k(2) by (simp only: of_int_le_iff)
      then have kr: "real_of_int n \<le> 10 * real_of_int k + 9" by simp
      have "of_int n * c \<le> of_int (16 * k + 15) / 2 ^ 4"
        unfolding c_def using kr nr by simp
      moreover have "\<bar>16 * k + 15\<bar> < 2^53" using k assms by simp
      ultimately have "T \<le> of_int (16 * k + 15) / 2 ^ 4"
        unfolding T_def by (rule to_double_le_dyadic)
      also have "\<dots> < of_int (k + 1)" by simp
      also have "\<dots> \<le> of_int d" using kd by (simp only: of_int_le_iff)
      finally show False using le[unfolded T] by linarith
    qed
  qed
qed

lemma within_tolerance_exact:
  assumes "t0 < 2^52"
  shows "within_tolerance t0 ti \<longleftrightarrow> 10 * \<bar>ti - t0\<bar> \<le> t0"
proof -
  consider "0 < t0" | "t0 = 0" | "t0 < 0" by linarith
  then show ?thesis
  proof cases
    case 1
    then show ?thesis
      unfolding within_tolerance_def using assms by (intro tenth_threshold) simp_all
  next
    case 2
    then show ?thesis
      by (simp add: within_tolerance_def float_mul_def float_of_int_def to_double_zero)
  next
    case 3
    have "float_of_int t0 < 0"
      unfolding float_of_int_def using 3 by (intro to_double_negative) simp
    moreover have "0 < to_double (1/10)" by (intro to_double_positive) simp
    ultimately have "float_of_int t0 * to_double (1/10) < 0"
      by (simp add: mult_neg_pos)
    then have "float_mul (float_of_int t0) (to_double (1/10)) < 0"
      unfolding float_mul_def by (rule to_double_negative)
    moreover have "0 \<le> real_of_int \<bar>ti - t0\<bar>" by simp
    ultimately have "\<not> within_tolerance t0 ti"
      unfolding within_tolerance_def by linarith
    moreover have "\<not> 10 * \<bar>ti - t0\<bar> \<le> t0"
    proof
      assume a: "10 * \<bar>ti - t0\<bar> \<le> t0"
      have "0 \<le> 10 * \<bar>ti - t0\<bar>" by simp
      with a 3 show False by linarith
    qed
    ultimately show ?thesis by simp
  qed
qed

lemma is_large_transaction_exact:
  assumes "monthly_income < 2^52"
  shows "is_large_transaction monthly_income t \<longleftrightarrow>
         0 < monthly_income \<and> type t = ''expense'' \<and>
         real_of_int (amount t) > 20/100 * real_of_int monthly_income"
proof (cases "0 < monthly_income")
  case True
  have "real_of_int (5 * amount t) > real_of_int monthly_income \<longleftrightarrow> monthly_income < 5 * amount t"
    by (simp only: of_int_less_iff)
  moreover have "real_of_int (amount t) > 20/100 * real_of_int monthly_income
      \<longleftrightarrow> real_of_int (5 * amount t) > real_of_int monthly_income"
    by (simp add: mult.commute)
  ultimately have "real_of_int (amount t) > 20/100 * real_of_int monthly_income
      \<longleftrightarrow> monthly_income < 5 * amount t"
    by (rule trans[rotated])
  then show ?thesis
    unfolding is_large_transaction_def fifth_threshold[OF True assms] using True by simp
next
  case False
  then show ?thesis by (simp add: is_large_transaction_def)
qed

lemma large_product_examples:
  "float_mul (float_of_int 2633996730456453621) (to_double (1/5)) = 526799346091290752"
  "float_mul (float_of_int 3989396414403619187) (to_double (1/10)) = 398939641440361984"
  by (simp_all add: float_mul_def float_of_int_def to_double_def to_double_pos.simps
      round_half_even_def Let_def)

text \<open>
  C5, as the specification states it, fails for very large amounts.  With a monthly
  income of 2633996730456453621 paisa, an expense of 526799346091290725 paisa is strictly
  more than 20 percent of the income (five times the expense is the income plus 4), and
  \<open>get_spending_alerts\<close> raises no alert: the double product \<open>monthly_income * 0.20\<close>
  is 526799346091290752, which the expense does not exceed.
\<close>

theorem large_transaction_missed_for_huge_income:
  "get_spending_alerts
     [\<lparr>date = ''2024-05-01'', type = ''income'', category = ''Salary'', description = ''pay'',
        amount = 2633996730456453621\<rparr>,
      \<lparr>date = ''2024-05-02'', type = ''expense'', category = ''Shopping'', description = ''yacht'',
        amount = 526799346091290725\<rparr>]
     [] \<lparr>year = 2024, month = 5, day = 15\<rparr> = Inr [] \<and>
   get_total_income
     [\<lparr>date = ''2024-05-01'', type = ''income'', category = ''Salary'', description = ''pay'',
        amount = 2633996730456453621\<rparr>,
      \<lparr>date = ''2024-05-02'', type = ''expense'', category = ''Shopping'', description = ''yacht'',
        amount = 526799346091290725\<rparr>] = 2633996730456453621 \<and>
   real_of_int 526799346091290725 > 20/100 * real_of_int 2633996730456453621"
proof -
  let ?cm = "[\<lparr>date = ''2024-05-01'', type = ''income'', category = ''Salary'', description = ''pay'',
        amount = 2633996730456453621\<rparr>,
      \<lparr>date = ''2024-05-02'', type = ''expense'', category = ''Shopping'', description = ''yacht'',
        amount = 526799346091290725\<rparr>]"
  have p: "strptime_Ymd ''2024-05-01'' = Inr \<lparr>year = 2024, month = 5, day = 1\<rparr>"
    "strptime_Ymd ''2024-05-02'' = Inr \<lparr>year = 2024, month = 5, day = 2\<rparr>"
    by (simp_all add: strptime_Ymd_def is_digit_def is_nonzero_digit_def digit_value_def
        days_in_month_def is_leap_def)
  have f: "filter_transactions_by_month ?cm 2024 5 = Inr ?cm"
    by (simp add: month_matches_def p)
  have i: "get_total_income ?cm = 2633996730456453621"
    by (simp add: get_total_income_def)
  have l: "large_transaction_alerts ?cm = []"
    unfolding large_transaction_alerts_def i Let_def
    by (simp add: is_large_transaction_def large_product_examples)
  have "get_spending_alerts ?cm [] \<lparr>year = 2024, month = 5, day = 15\<rparr> = Inr []"
    by (simp add: get_spending_alerts_def f l del: filter_transactions_by_month.simps)
  moreover have "real_of_int 526799346091290725 > 20/100 * real_of_int 2633996730456453621"
    by simp
  ultimately show ?thesis using i by blast
qed

text \<open>
  C5, amended.  While the month's income is below \<open>2^52\<close> paisa, the large-transaction
  alerts are exactly the current-month expenses whose amount is strictly greater than 20
  percent of a positive monthly income: an expense of exactly 20 percent raises none, and
  one paisa more raises one.
\<close>

theorem large_transaction_alerts_exact:
  assumes "get_total_income current_month_transactions < 2^52"
  shows "large_transaction_alerts current_month_transactions =
         map LargeTransaction
           (filter (\<lambda>t. type t = ''expense'' \<and> 0 < get_total_income current_month_transactions \<and>
                        real_of_int (amount t)
                          > 20/100 * real_of_int (get_total_income current_month_transactions))
              current_month_transactions)"
proof -
  have "is_large_transaction (get_total_income current_month_transactions) =
        (\<lambda>t. type t = ''expense'' \<and> 0 < get_total_income current_month_transactions \<and>
             real_of_int (amount t)
               > 20/100 * real_of_int (get_total_income current_month_transactions))"
    using is_large_transaction_exact[OF assms] by auto
  then show ?thesis by (simp only: large_transaction_alerts_def Let_def)
qed

theorem large_transaction_alerts_witness:
  "get_total_income
     [\<lparr>date = ''2024-05-01'', type = ''income'', category = ''Salary'', description = ''pay'', amount = 100000\<rparr>,
      \<lparr>date = ''2024-05-02'', type = ''expense'', category = ''Bills'', description = ''rent'', amount = 20000\<rparr>,
      \<lparr>date = ''2024-05-03'', type = ''expense'', category = ''Shopping'', description = ''phone'', amount = 20001\<rparr>]
     < 2^52 \<and>
   large_transaction_alerts
     [\<lparr>date = ''2024-05-01'', type = ''income'', category = ''Salary'', description = ''pay'', amount = 100000\<rparr>,
      \<lparr>date = ''2024-05-02'', type = ''expense'', category = ''Bills'', description = ''rent'', amount = 20000\<rparr>,
      \<lparr>date = ''2024-05-03'', type = ''expense'', category = ''Shopping'', description = ''phone'', amount = 20001\<rparr>]
   = [LargeTransaction
        \<lparr>date = ''2024-05-03'', type = ''expense'', category = ''Shopping'', description = ''phone'', amount = 20001\<rparr>]"
proof -
  let ?cm = "[\<lparr>date = ''2024-05-01'', type = ''income'', category = ''Salary'', description = ''pay'', amount = 100000\<rparr>,
      \<lparr>date = ''2024-05-02'', type = ''expense'', category = ''Bills'', description = ''rent'', amount = 20000\<rparr>,
      \<lparr>date = ''2024-05-03'', type = ''expense'', category = ''Shopping'', description = ''phone'', amount = 20001\<rparr>]"
  have i: "get_total_income ?cm = 100000" by (simp add: get_total_income_def)
  have b: "get_total_income ?cm < 2^52" by (simp add: i)
  show ?thesis
    using large_transaction_alerts_exact[OF b] b by (simp add: i)
qed

text \<open>
  C3, as the specification states it, fails for very large totals.  For the totals
  3989396414403619187, 4388336055843981106 and 3590456772963257268 paisa, both later
  totals differ from the first by more than 10 percent of it (ten times either
  difference is the first total plus 3), and the classifier answers STABLE: the double
  product \<open>t0 * 0.1\<close> is 398939641440361984, which neither difference exceeds.
\<close>

theorem income_stability_stable_beyond_ten_percent:
  "income_stability [3989396414403619187, 4388336055843981106, 3590456772963257268] = STABLE \<and>
   \<not> real_of_int \<bar>4388336055843981106 - 3989396414403619187\<bar>
       \<le> 1/10 * real_of_int 3989396414403619187 \<and>
   \<not> real_of_int \<bar>3590456772963257268 - 3989396414403619187\<bar>
       \<le> 1/10 * real_of_int 3989396414403619187"
proof -
  have "within_tolerance 3989396414403619187 4388336055843981106"
    "within_tolerance 3989396414403619187 3590456772963257268"
    by (simp_all add: within_tolerance_def large_product_examples)
  then have "income_stability [3989396414403619187, 4388336055843981106, 3590456772963257268] = STABLE"
    by simp
  moreover have "\<not> real_of_int \<bar>4388336055843981106 - 3989396414403619187\<bar>
       \<le> 1/10 * real_of_int 3989396414403619187"
    "\<not> real_of_int \<bar>3590456772963257268 - 3989396414403619187\<bar>
       \<le> 1/10 * real_of_int 3989396414403619187"
    by simp_all
  ultimately show ?thesis by blast
qed

text \<open>
  C3, amended.  For three period totals whose first is below \<open>2^52\<close> paisa, the
  classifier answers STABLE exactly when both later totals are within 10 percent of the
  first, and FLUCTUATING otherwise; for a first total of 0 that is exactly when both
  later totals are 0.  The test multiplies and compares; it divides nowhere.
\<close>

theorem income_stability_exact:
  assumes "t0 < 2^52"
  shows "income_stability [t0, t1, t2] =
           (if real_of_int \<bar>t1 - t0\<bar> \<le> 1/10 * real_of_int t0 \<and>
               real_of_int \<bar>t2 - t0\<bar> \<le> 1/10 * real_of_int t0
            then STABLE else FLUCTUATING) \<and>
         (t0 = 0 \<longrightarrow> income_stability [t0, t1, t2] =
            (if t1 = 0 \<and> t2 = 0 then STABLE else FLUCTUATING))"
proof -
  have e: "real_of_int \<bar>ti - t0\<bar> \<le> 1/10 * real_of_int t0 \<longleftrightarrow> 10 * \<bar>ti - t0\<bar> \<le> t0" for ti
  proof -
    have "real_of_int (10 * \<bar>ti - t0\<bar>) \<le> real_of_int t0 \<longleftrightarrow> 10 * \<bar>ti - t0\<bar> \<le> t0"
      by (simp only: of_int_le_iff)
    moreover have "real_of_int \<bar>ti - t0\<bar> \<le> 1/10 * real_of_int t0
        \<longleftrightarrow> real_of_int (10 * \<bar>ti - t0\<bar>) \<le> real_of_int t0"
      by (simp add: mult.commute)
    ultimately show ?thesis by (rule trans[rotated])
  qed
  have s: "income_stability [t0, t1, t2] =
      (if 10 * \<bar>t1 - t0\<bar> \<le> t0 \<and> 10 * \<bar>t2 - t0\<bar> \<le> t0 then STABLE else FLUCTUATING)"
    by (simp only: income_stability.simps within_tolerance_exact[OF assms])
  have "income_stability [t0, t1, t2] =
           (if real_of_int \<bar>t1 - t0\<bar> \<le> 1/10 * real_of_int t0 \<and>
               real_of_int \<bar>t2 - t0\<bar> \<le> 1/10 * real_of_int t0
            then STABLE else FLUCTUATING)"
    by (simp only: s e)
  moreover have "t0 = 0 \<longrightarrow> income_stability [t0, t1, t2] =
            (if t1 = 0 \<and> t2 = 0 then STABLE else FLUCTUATING)"
    unfolding s by simp
  ultimately show ?thesis by (rule conjI)
qed

theorem income_stability_witness:
  "(1000::int) < 2^52 \<and> (0::int) < 2^52 \<and>
   income_stability [1000, 1050, 950] = STABLE \<and>
   income_stability [1000, 1200, 900] = FLUCTUATING \<and>
   income_stability [0, 0, 0] = STABLE \<and>
   income_stability [0, 50, 0] = FLUCTUATING"
proof -
  have a: "(1000::int) < 2^52" and b: "(0::int) < 2^52" by simp_all
  have e: "income_stability [t0, t1, t2] =
      (if real_of_int \<bar>t1 - t0\<bar> \<le> 1/10 * real_of_int t0 \<and>
          real_of_int \<bar>t2 - t0\<bar> \<le> 1/10 * real_of_int t0
       then STABLE else FLUCTUATING)" if "t0 < 2^52" for t0 t1 t2
    using income_stability_exact[OF that, of t1 t2] by blast
  have "income_stability [1000, 1050, 950] = STABLE"
    unfolding e[OF a] by simp
  moreover have "income_stability [1000, 1200, 900] = FLUCTUATING"
    unfolding e[OF a] by simp
  moreover have "income_stability [0, 0, 0] = STABLE"
    unfolding e[OF b] by simp
  moreover have "income_stability [0, 50, 0] = FLUCTUATING"
    unfolding e[OF b] by simp
  ultimately show ?thesis using a b by blast
qed

section \<open>Trend comparison\<close>

lemma to_double_pos_error:
  assumes "0 < x"
  shows "\<bar>to_double_pos x - x\<bar> \<le> x / 2^53"
proof -
  from assms obtain k :: int where k: "2^52 \<le> x * 2 powi k" "x * 2 powi k < 2^53"
      "to_double_pos x = of_int (round_half_even (x * 2 powi k)) / 2 powi k"
    using to_double_pos_scaled[of x] by blast
  define p :: real where "p = 2 powi k"
  define v where "v = x * p"
  have p: "0 < p" by (simp add: p_def)
  have xv: "x = v / p" using p by (simp add: v_def)
  have "\<bar>of_int (round_half_even v) - v\<bar> \<le> 1/2" by (rule round_half_even_near)
  also have "\<dots> \<le> v / 2^53" using k(1) by (simp add: v_def p_def)
  finally have "\<bar>of_int (round_half_even v) - v\<bar> / p \<le> v / 2^53 / p"
    using p by (intro divide_right_mono) simp_all
  moreover have "\<bar>of_int (round_half_even v) / p - v / p\<bar> = \<bar>of_int (round_half_even v) - v\<bar> / p"
  proof -
    have "\<bar>of_int (round_half_even v) / p - v / p\<bar> = \<bar>(of_int (round_half_even v) - v) / p\<bar>"
      by (simp only: diff_divide_distrib)
    also have "\<dots> = \<bar>of_int (round_half_even v) - v\<bar> / \<bar>p\<bar>" by (rule abs_divide)
    also have "\<bar>p\<bar> = p" using p by (rule abs_of_pos)
    finally show ?thesis .
  qed
  moreover have "v / 2^53 / p = v / p / 2^53" by simp
  ultimately have "\<bar>of_int (round_half_even v) / p - v / p\<bar> \<le> v / p / 2^53" by simp
  then show ?thesis
    unfolding k(3) xv[symmetric] v_def[symmetric] p_def[symmetric] .
qed

lemma to_double_error: "\<bar>to_double x - x\<bar> \<le> \<bar>x\<bar> / 2^53"
proof -
  consider "0 < x" | "x = 0" | "x < 0" by linarith
  then show ?thesis
  proof cases
    case 1
    then show ?thesis using to_double_pos_error[of x] by (simp add: to_double_def)
  next
    case 2
    then show ?thesis by (simp add: to_double_zero)
  next
    case 3
    then have "\<bar>to_double_pos (- x) - (- x)\<bar> \<le> (- x) / 2^53"
      by (intro to_double_pos_error) simp
    moreover have "\<bar>to_double_pos (- x) - (- x)\<bar> = \<bar>- to_double_pos (- x) - x\<bar>"
      by (simp add: abs_minus_commute)
    ultimately show ?thesis using 3 by (simp add: to_double_def)
  qed
qed

text \<open>A quotient of ints times 100, computed in doubles, against the exact value.\<close>

lemma percent_error:
  fixes q :: real
  defines "p \<equiv> float_mul (to_double q) (float_of_int 100)"
  shows "\<bar>p - q * 100\<bar> \<le> \<bar>q * 100\<bar> / 2^51"
proof -
  define f where "f = to_double q"
  have a: "\<bar>f - q\<bar> \<le> \<bar>q\<bar> / 2^53" unfolding f_def by (rule to_double_error)
  have pf: "p = to_double (f * 100)"
    by (simp add: p_def float_mul_def float_of_int_100 f_def)
  have b: "\<bar>p - f * 100\<bar> \<le> \<bar>f * 100\<bar> / 2^53" unfolding pf by (rule to_double_error)
  have "\<bar>f\<bar> \<le> \<bar>f - q\<bar> + \<bar>q\<bar>" by linarith
  also have "\<dots> \<le> \<bar>q\<bar> / 2^53 + \<bar>q\<bar>" using a by simp
  also have "\<dots> \<le> 2 * \<bar>q\<bar>" by simp
  finally have f2: "\<bar>f\<bar> \<le> 2 * \<bar>q\<bar>" .
  have "\<bar>f * 100\<bar> = 100 * \<bar>f\<bar>" by (simp add: abs_mult)
  then have b2: "\<bar>p - f * 100\<bar> \<le> 200 * \<bar>q\<bar> / 2^53" using b f2 by simp
  have "\<bar>p - q * 100\<bar> \<le> \<bar>p - f * 100\<bar> + \<bar>f * 100 - q * 100\<bar>" by linarith
  moreover have "\<bar>f * 100 - q * 100\<bar> = 100 * \<bar>f - q\<bar>"
  proof -
    have "\<bar>f * 100 - q * 100\<bar> = \<bar>(f - q) * 100\<bar>" by (simp only: left_diff_distrib)
    also have "\<dots> = \<bar>f - q\<bar> * \<bar>100\<bar>" by (rule abs_mult)
    finally show ?thesis by simp
  qed
  ultimately have "\<bar>p - q * 100\<bar> \<le> 200 * \<bar>q\<bar> / 2^53 + 100 * (\<bar>q\<bar> / 2^53)"
    using a b2 by linarith
  also have "\<dots> \<le> \<bar>q * 100\<bar> / 2^51" by (simp add: abs_mult)
  finally show ?thesis .
qed

text \<open>
  C8.  When the previous total is 0 the comparison divides nothing and reports the
  no-baseline outcome: new activity when the current total is positive, no activity
  otherwise.  When the previous total is positive it reports the percent change
  \<open>(current - previous) / previous * 100\<close> as computed in double precision, which is
  within a relative error of \<open>2^-51\<close> of the exact value of that formula (and so has
  its sign).  A \<open>ZeroDivisionError\<close> is never raised.
\<close>

theorem compare_with_last_month_percent_change:
  "(previous = 0 \<longrightarrow>
      compare_with_last_month current previous =
        Inr (if current > 0 then NewActivity else NoActivity)) \<and>
   (previous > 0 \<longrightarrow>
      (\<exists>c p e. compare_with_last_month current previous = Inr c \<and>
               reported_change c = Some p \<and>
               p = float_mul (to_double (of_int (current - previous) / of_int previous))
                     (float_of_int 100) \<and>
               percent_change current previous = Some e \<and>
               \<bar>p - e\<bar> \<le> \<bar>e\<bar> / 2^51)) \<and>
   compare_with_last_month current previous \<noteq> Inl ZeroDivisionError"
proof -
  have z: "previous = 0 \<longrightarrow>
      compare_with_last_month current previous =
        Inr (if current > 0 then NewActivity else NoActivity)"
    by (simp add: compare_with_last_month_def)
  have pos: "previous > 0 \<longrightarrow>
      (\<exists>c p e. compare_with_last_month current previous = Inr c \<and>
               reported_change c = Some p \<and>
               p = float_mul (to_double (of_int (current - previous) / of_int previous))
                     (float_of_int 100) \<and>
               percent_change current previous = Some e \<and>
               \<bar>p - e\<bar> \<le> \<bar>e\<bar> / 2^51)"
  proof
    assume gt: "previous > 0"
    define q :: real where "q = of_int (current - previous) / of_int previous"
    define p where "p = float_mul (to_double q) (float_of_int 100)"
    have e: "percent_change current previous = Some (q * 100)"
      using gt by (simp add: percent_change_def q_def)
    have err: "\<bar>p - q * 100\<bar> \<le> \<bar>q * 100\<bar> / 2^51"
      unfolding p_def by (rule percent_error)
    have c: "compare_with_last_month current previous =
        Inr (if p > 0 then Increased p else if p < 0 then Decreased \<bar>p\<bar> else RemainedSame)"
      using gt by (simp add: compare_with_last_month_def py_truediv_def Let_def p_def q_def)
    have r: "reported_change
        (if p > 0 then Increased p else if p < 0 then Decreased \<bar>p\<bar> else RemainedSame) = Some p"
      by simp
    show "\<exists>c p e. compare_with_last_month current previous = Inr c \<and>
               reported_change c = Some p \<and>
               p = float_mul (to_double (of_int (current - previous) / of_int previous))
                     (float_of_int 100) \<and>
               percent_change current previous = Some e \<and>
               \<bar>p - e\<bar> \<le> \<bar>e\<bar> / 2^51"
      using c r e err unfolding p_def q_def by blast
  qed
  have nz: "compare_with_last_month current previous \<noteq> Inl ZeroDivisionError"
    by (simp add: compare_with_last_month_def py_truediv_def Let_def)
  from z pos nz show ?thesis by blast
qed

lemma percent_example:
  "compare_with_last_month 25000 20000 = Inr (Increased 25)"
proof -
  have "float_mul (to_double (1/4)) (float_of_int 100) = 25"
    by (simp add: float_mul_def float_of_int_100 to_double_def to_double_pos.simps
        round_half_even_def Let_def)
  then show ?thesis
    by (simp add: compare_with_last_month_def py_truediv_def Let_def)
qed

theorem compare_with_last_month_witness:
  "compare_with_last_month 5000 0 = Inr NewActivity \<and>
   compare_with_last_month 0 0 = Inr NoActivity \<and>
   (20000::int) > 0 \<and>
   compare_with_last_month 25000 20000 = Inr (Increased 25) \<and>
   percent_change 25000 20000 = Some 25"
  using compare_with_last_month_percent_change[of 0 5000]
    compare_with_last_month_percent_change[of 0 0]
    compare_with_last_month_percent_change[of 20000 25000]
  by (simp add: percent_example percent_change_def)

section \<open>The thresholds of the two status tables in exact terms\<close>

lemma seventy_percent_products:
  "to_double (6305039478318694 / 2^53 * 100) = 70"
  "to_double (6305039478318693 / 2^53 * 100) = 70 - 1 / 2^46"
  by (simp_all add: to_double_def to_double_pos.simps round_half_even_def Let_def)

text \<open>
  \<open>view_budgets\<close>, for a positive budget of at most \<open>2^49\<close> paisa: OVER from a spend
  equal to the budget, WARNING from 70 percent of it, OK below.
\<close>

lemma view_budgets_status_exact:
  assumes "0 < a" "a \<le> 2^49"
  shows "\<exists>u. utilization_percent s a = Inr u \<and>
             status_text u = (if a \<le> s then OVER else if 7 * a \<le> 10 * s then WARNING else OK)"
proof -
  define q :: real where "q = of_int s / of_int a"
  define u where "u = to_double (to_double q * 100)"
  have ar: "0 < real_of_int a" "real_of_int a \<le> 2^49" using assms by simp_all
  have U: "utilization_percent s a = Inr u"
    using assms(1)
    by (simp add: utilization_percent_def py_truediv_def float_mul_def float_of_int_100
        u_def q_def)
  have over: "100 \<le> u" if "a \<le> s"
  proof -
    have "real_of_int a \<le> real_of_int s" using that by (simp only: of_int_le_iff)
    then have "of_int 1 \<le> q" using ar by (simp add: q_def)
    then have "of_int 1 \<le> to_double q" by (rule to_double_ge_int) simp
    then have "of_int 100 \<le> to_double q * 100" by simp
    then have "of_int 100 \<le> u" unfolding u_def by (rule to_double_ge_int) simp
    then show ?thesis by simp
  qed
  have under: "u < 100" if "s < a"
  proof -
    have "s \<le> a - 1" using that by simp
    then have "real_of_int s \<le> real_of_int (a - 1)" by (simp only: of_int_le_iff)
    then have "real_of_int s \<le> real_of_int a - 1" by simp
    moreover have "real_of_int a - 1 \<le> of_int (2^49 - 1) / 2 ^ 49 * real_of_int a"
      using ar by (simp add: field_simps)
    ultimately have "real_of_int s \<le> of_int (2^49 - 1) / 2 ^ 49 * real_of_int a" by linarith
    then have "q \<le> of_int (2^49 - 1) / 2 ^ 49"
      unfolding q_def using ar(1) by (simp only: pos_divide_le_eq)
    then have "to_double q \<le> of_int (2^49 - 1) / 2 ^ 49"
      by (rule to_double_le_dyadic) simp
    then have "to_double q * 100 \<le> of_int (100 * 2^43 - 1) / 2 ^ 43" by simp
    then have "u \<le> of_int (100 * 2^43 - 1) / 2 ^ 43"
      unfolding u_def by (rule to_double_le_dyadic) simp
    then show ?thesis by simp
  qed
  have warn: "70 \<le> u" if "7 * a \<le> 10 * s"
  proof -
    have "real_of_int (7 * a) \<le> real_of_int (10 * s)" using that by (simp only: of_int_le_iff)
    then have "7 * real_of_int a \<le> 10 * real_of_int s" by simp
    then have "7/10 \<le> q" using ar by (simp add: q_def field_simps)
    then have "to_double (7/10) \<le> to_double q" by (rule to_double_mono)
    then have "6305039478318694 / 2^53 * 100 \<le> to_double q * 100"
      by (simp only: literal_0_7 mult_le_cancel_right) simp
    then have "to_double (6305039478318694 / 2^53 * 100) \<le> u"
      unfolding u_def by (rule to_double_mono)
    then show ?thesis by (simp only: seventy_percent_products)
  qed
  have ok: "u < 70" if "10 * s < 7 * a"
  proof -
    have "10 * s \<le> 7 * a - 1" using that by simp
    then have "real_of_int (10 * s) \<le> real_of_int (7 * a - 1)" by (simp only: of_int_le_iff)
    then have "10 * real_of_int s \<le> 7 * real_of_int a - 1" by simp
    moreover have "7 * real_of_int a - 1 \<le> 10 * (of_int 6305039478318693 / 2 ^ 53 * real_of_int a)"
      using ar by simp
    ultimately have "real_of_int s \<le> of_int 6305039478318693 / 2 ^ 53 * real_of_int a"
      by linarith
    then have "q \<le> of_int 6305039478318693 / 2 ^ 53"
      unfolding q_def using ar(1) by (simp only: pos_divide_le_eq)
    then have "to_double q \<le> of_int 6305039478318693 / 2 ^ 53"
      by (rule to_double_le_dyadic) simp
    then have "to_double q * 100 \<le> 6305039478318693 / 2^53 * 100" by simp
    then have "u \<le> to_double (6305039478318693 / 2^53 * 100)"
      unfolding u_def by (rule to_double_mono)
    then have "u \<le> 70 - 1 / 2^46" by (simp only: seventy_percent_products)
    then show ?thesis by simp
  qed
  have "status_text u = (if a \<le> s then OVER else if 7 * a \<le> 10 * s then WARNING else OK)"
  proof (cases "a \<le> s")
    case True
    then show ?thesis using over by (simp add: status_text_def)
  next
    case False
    then have lt: "s < a" by simp
    show ?thesis
    proof (cases "7 * a \<le> 10 * s")
      case True
      then show ?thesis using lt under[OF lt] warn by (simp add: status_text_def)
    next
      case False
      then have "10 * s < 7 * a" by simp
      from ok[OF this] show ?thesis using lt False by (simp add: status_text_def)
    qed
  qed
  with U show ?thesis by blast
qed

text \<open>
  The monthly report, for a positive budget of at most \<open>2^49\<close> paisa: OVER only above
  the budget, WARNING above 70 percent of it, OK below 70 percent.  At exactly 70 percent
  the answer depends on how the double product \<open>budget.amount * 0.7\<close> was rounded.
\<close>

lemma report_status_exact:
  assumes "0 < a" "a \<le> 2^49"
  shows "(a < s \<longrightarrow> report_status s a = OVER) \<and>
         (s \<le> a \<and> 7 * a < 10 * s \<longrightarrow> report_status s a = WARNING) \<and>
         (10 * s < 7 * a \<longrightarrow> report_status s a = OK)"
proof -
  define c :: real where "c = 6305039478318694 / 2^53"
  define T where "T = to_double (of_int a * c)"
  have ar: "0 < real_of_int a" "real_of_int a \<le> 2^49" using assms by simp_all
  have fa: "float_of_int a = of_int a" using assms by (intro float_of_int_exact) simp
  have T: "float_mul (float_of_int a) (to_double (7/10)) = T"
    by (simp only: float_mul_def fa literal_0_7 T_def c_def)
  have R: "report_status s a = (if s > a then OVER else if of_int s > T then WARNING else OK)"
    by (simp only: report_status_def T)
  have w: "T < of_int s" if "7 * a < 10 * s"
  proof -
    define k where "k = (7 * a) div 10"
    have k: "10 * k \<le> 7 * a" "7 * a \<le> 10 * k + 9" unfolding k_def by simp_all
    have ks: "k + 1 \<le> s" using that k by simp
    have "real_of_int (7 * a) \<le> real_of_int (10 * k + 9)" using k(2) by (simp only: of_int_le_iff)
    then have kr: "7 * real_of_int a \<le> 10 * real_of_int k + 9" by simp
    have "of_int a * c \<le> of_int (16 * k + 15) / 2 ^ 4"
      unfolding c_def using kr ar by simp
    moreover have "\<bar>16 * k + 15\<bar> < 2^53" using k assms by simp
    ultimately have "T \<le> of_int (16 * k + 15) / 2 ^ 4"
      unfolding T_def by (rule to_double_le_dyadic)
    also have "\<dots> < of_int (k + 1)" by simp
    also have "\<dots> \<le> of_int s" using ks by (simp only: of_int_le_iff)
    finally show ?thesis .
  qed
  have o: "of_int s \<le> T" if "10 * s < 7 * a"
  proof (cases "s \<le> 0")
    case True
    have "0 < of_int a * c" using ar by (simp add: c_def)
    then have "0 < T" unfolding T_def by (rule to_double_positive)
    with True show ?thesis by simp
  next
    case False
    then have "\<bar>s\<bar> < 2^53" using that assms by simp
    moreover have "10 * s \<le> 7 * a - 1" using that by simp
    then have "real_of_int (10 * s) \<le> real_of_int (7 * a - 1)" by (simp only: of_int_le_iff)
    then have "10 * real_of_int s \<le> 7 * real_of_int a - 1" by simp
    then have "of_int s \<le> of_int a * c" unfolding c_def using ar by simp
    ultimately show ?thesis unfolding T_def by (intro to_double_ge_int)
  qed
  have "a < s \<longrightarrow> report_status s a = OVER" by (simp add: R)
  moreover have "s \<le> a \<and> 7 * a < 10 * s \<longrightarrow> report_status s a = WARNING"
    using w by (simp add: R)
  moreover have "10 * s < 7 * a \<longrightarrow> report_status s a = OK"
  proof
    assume l: "10 * s < 7 * a"
    then have "\<not> s > a" using assms by simp
    moreover have "\<not> of_int s > T" using o[OF l] by simp
    ultimately show "report_status s a = OK" by (simp add: R)
  qed
  ultimately show ?thesis by blast
qed

end
